theory Spec2Isabelle
  imports Main
begin

section \<open>Data model\<close>

text \<open>
  The types of \<^verbatim>\<open>types.ts\<close> as \<^verbatim>\<open>V2AgentNode.handleSendMessage\<close>
  (components/OptimizedWorkflowBackground.tsx, lines 1195-1494), the dispatcher
  \<^verbatim>\<open>llmService.ts\<close> and \<^verbatim>\<open>geminiService.ts\<close> use them. An optional field is an
  \<open>option\<close>; the optional boolean \<^verbatim>\<open>isError\<close> is \<open>False\<close> when absent.
\<close>

datatype Sender = SUser | SAgent | SToolResult

datatype LLMProvider =
  Gemini | OpenAI | Mistral | Anthropic | Grok | Qwen | Perplexity | Kimi | DeepSeek
  | LMStudio | ArcLLM | OtherProvider string

datatype LLMCapability =
  Chat | FileUpload | FunctionCalling | ImageGeneration | ImageModification
  | OutputFormatting | WebSearch | VideoGeneration | MapsGrounding | WebSearchGrounding
  | OtherCapability string

datatype Status = executing_tool

text \<open>
  Every message id the handler builds is the template \<^verbatim>\<open>msg-${Date.now()}\<close> followed by a suffix,
  one of \<^verbatim>\<open>""\<close>, \<^verbatim>\<open>-summary\<close>, \<^verbatim>\<open>-agent\<close>, \<^verbatim>\<open>-tool-result\<close>,
  \<^verbatim>\<open>-tool-error\<close>, \<^verbatim>\<open>-tool-context\<close>, \<^verbatim>\<open>-followup\<close>. A suffix is empty or starts
  with \<^verbatim>\<open>-\<close>, so the rendered string determines the pair (timestamp, suffix) and the
  pair is kept as the id. \<open>SummaryPromptId\<close> is \<^verbatim>\<open>msg-summary-prompt-${Date.now()}\<close>;
  \<open>OtherId\<close> is an id written by another component.
\<close>

datatype MsgId = MsgId nat string | SummaryPromptId nat | OtherId string

record ToolCall =
  tc_id :: string
  tc_name :: string
  tc_arguments :: string

record ChatMessage =
  msg_id :: MsgId
  sender :: Sender
  msg_text :: string
  isError :: bool
  toolCalls :: "ToolCall list option"
  status :: "Status option"
  toolCallId :: "string option"
  toolName :: "string option"
  filename :: "string option"
  mimeType :: "string option"
  msg_image :: "string option"
  fileContent :: "string option"

definition mkMessage :: "MsgId \<Rightarrow> Sender \<Rightarrow> string \<Rightarrow> ChatMessage" where
  "mkMessage i s txt =
     \<lparr>msg_id = i, sender = s, msg_text = txt, isError = False, toolCalls = None,
      status = None, toolCallId = None, toolName = None, filename = None,
      mimeType = None, msg_image = None, fileContent = None\<rparr>"

record Tool =
  tool_name :: string
  tool_description :: string
  tool_parameters :: string

record OutputConfig =
  oc_enabled :: bool
  oc_format :: string

record Limits =
  lim_token :: int
  lim_word :: int
  lim_sentence :: int
  lim_message :: int

record HistoryConfig =
  h_enabled :: bool
  h_llmProvider :: LLMProvider
  h_model :: string
  h_systemPrompt :: string
  limits :: Limits

record Agent =
  llmProvider :: LLMProvider
  model :: string
  systemPrompt :: string
  capabilities :: "LLMCapability list"
  tools :: "Tool list option"
  outputConfig :: "OutputConfig option"
  historyConfig :: "HistoryConfig option"

record LLMConfig =
  provider :: LLMProvider
  enabled :: bool
  apiKey :: string

text \<open>
  An attached \<^verbatim>\<open>File\<close>. \<^verbatim>\<open>fileToText\<close> and \<^verbatim>\<open>fileToBase64\<close> (utils/fileUtils) are
  promises over the file; what each settles to is carried with the file: \<open>Inl\<close> the
  rejection, \<open>Inr\<close> the value.
\<close>

record File =
  f_name :: string
  f_type :: string
  fileToText :: "string + string"
  fileToBase64 :: "string + string"

section \<open>Streams\<close>

text \<open>
  One element of the async generator \<^verbatim>\<open>generateContentStream\<close>: an object with an
  optional \<^verbatim>\<open>error\<close> string and an optional \<^verbatim>\<open>response\<close>, which may carry
  \<^verbatim>\<open>text\<close> and \<^verbatim>\<open>toolCalls\<close>. A generator is run to its end: the elements it
  yields, then \<open>Done\<close> (it returns) or \<open>Throws\<close> (an exception leaves it, with its
  message).
\<close>

record Response =
  r_text :: "string option"
  r_toolCalls :: "ToolCall list option"

record Chunk =
  error :: "string option"
  response :: "Response option"

datatype Completion = Done | Throws string

type_synonym StreamOutcome = "Chunk list \<times> Completion"

text \<open>JavaScript truthiness of an optional string: present and not empty.\<close>

definition truthy :: "string option \<Rightarrow> bool" where
  "truthy s = (case s of None \<Rightarrow> False | Some x \<Rightarrow> x \<noteq> [])"

definition textChunk :: "string \<Rightarrow> Chunk" where
  "textChunk s = \<lparr>error = None, response = Some \<lparr>r_text = Some s, r_toolCalls = None\<rparr>\<rparr>"

definition toolCallsChunk :: "ToolCall list \<Rightarrow> Chunk" where
  "toolCallsChunk tcs = \<lparr>error = None, response = Some \<lparr>r_text = None, r_toolCalls = Some tcs\<rparr>\<rparr>"

definition errorChunk :: "string \<Rightarrow> Chunk" where
  "errorChunk e = \<lparr>error = Some e, response = None\<rparr>"

section \<open>The runtime store\<close>

record NodeState =
  nodeMessages :: "ChatMessage list"
  nodeExecuting :: bool
  userInput :: string
  attachedFile :: "File option"
  loadingMessage :: string

text \<open>
  Modelled from the spec: the accessors of \<^verbatim>\<open>stores/useRuntimeStore\<close>, which is not
  among the sources. A Session is the "ordered Message sequence for one agent instance
  plus an executing flag"; messages are "appended"; history is "replaceable wholesale".
\<close>

definition getNodeMessages :: "NodeState \<Rightarrow> ChatMessage list" where
  "getNodeMessages s = nodeMessages s"

definition addNodeMessage :: "ChatMessage \<Rightarrow> NodeState \<Rightarrow> NodeState" where
  "addNodeMessage m s = s\<lparr>nodeMessages := nodeMessages s @ [m]\<rparr>"

definition setNodeMessages :: "ChatMessage list \<Rightarrow> NodeState \<Rightarrow> NodeState" where
  "setNodeMessages ms s = s\<lparr>nodeMessages := ms\<rparr>"

definition isNodeExecuting :: "NodeState \<Rightarrow> bool" where
  "isNodeExecuting s = nodeExecuting s"

definition setNodeExecuting :: "bool \<Rightarrow> NodeState \<Rightarrow> NodeState" where
  "setNodeExecuting b s = s\<lparr>nodeExecuting := b\<rparr>"

text \<open>Modelled from the spec: \<^verbatim>\<open>countMessages\<close> of utils/textUtils, the "message count".\<close>

definition countMessages :: "ChatMessage list \<Rightarrow> nat" where
  "countMessages ms = length ms"

section \<open>The primary stream loop (lines 1319-1372)\<close>

text \<open>
  The loop variables are the store, \<^verbatim>\<open>currentResponse\<close> and \<^verbatim>\<open>toolCalls\<close>.
  \<open>onChunk\<close> is one iteration of the body; its boolean is \<^verbatim>\<open>break\<close>.
\<close>

type_synonym LoopVars = "NodeState \<times> string \<times> ToolCall list"

definition onText :: "MsgId \<Rightarrow> Chunk \<Rightarrow> LoopVars \<Rightarrow> LoopVars" where
  "onText agentMessageId chunk v =
     (case v of (s, currentResponse, tcs) \<Rightarrow>
        (case response chunk of
           None \<Rightarrow> v
         | Some r \<Rightarrow>
             if truthy (r_text r) then
               (let currentResponse' = currentResponse @ the (r_text r);
                    existingMessages = getNodeMessages s
                in if find (\<lambda>m. msg_id m = agentMessageId) existingMessages \<noteq> None
                   then (setNodeMessages
                           (map (\<lambda>m. if msg_id m = agentMessageId
                                      then m\<lparr>msg_text := currentResponse'\<rparr> else m)
                              existingMessages) s,
                         currentResponse', tcs)
                   else (addNodeMessage (mkMessage agentMessageId SAgent currentResponse') s,
                         currentResponse', tcs))
             else v))"

definition onToolCalls :: "MsgId \<Rightarrow> Chunk \<Rightarrow> LoopVars \<Rightarrow> LoopVars" where
  "onToolCalls agentMessageId chunk v =
     (case v of (s, currentResponse, tcs) \<Rightarrow>
        (case response chunk of
           None \<Rightarrow> v
         | Some r \<Rightarrow>
             (case r_toolCalls r of
                None \<Rightarrow> v
              | Some tcs' \<Rightarrow>
                  (let toolMessage = (mkMessage agentMessageId SAgent currentResponse)
                         \<lparr>toolCalls := Some tcs', status := Some executing_tool\<rparr>;
                       existingMessages = getNodeMessages s
                   in (setNodeMessages
                         (map (\<lambda>m. if msg_id m = agentMessageId then toolMessage else m)
                            existingMessages) s,
                       currentResponse, tcs')))))"

definition onChunk :: "MsgId \<Rightarrow> Chunk \<Rightarrow> LoopVars \<Rightarrow> LoopVars \<times> bool" where
  "onChunk agentMessageId chunk v =
     (case v of (s, currentResponse, tcs) \<Rightarrow>
        if truthy (error chunk) then
          ((addNodeMessage
              ((mkMessage agentMessageId SAgent (the (error chunk)))\<lparr>isError := True\<rparr>) s,
            currentResponse, tcs), True)
        else (onToolCalls agentMessageId chunk (onText agentMessageId chunk v), False))"

fun streamLoop :: "MsgId \<Rightarrow> Chunk list \<Rightarrow> LoopVars \<Rightarrow> LoopVars \<times> bool" where
  "streamLoop agentMessageId [] v = (v, False)"
| "streamLoop agentMessageId (chunk # rest) v =
     (case onChunk agentMessageId chunk v of
        (v', brk) \<Rightarrow> if brk then (v', True) else streamLoop agentMessageId rest v')"

section \<open>The environment of a submission\<close>

text \<open>
  What \<^verbatim>\<open>handleSendMessage\<close> reads from outside the component: the localisation
  function \<^verbatim>\<open>t\<close>, the configured providers \<^verbatim>\<open>llmConfigs\<close>, the counters of
  utils/textUtils, the dispatcher's two entry points, \<^verbatim>\<open>executeTool\<close>, the clock
  \<^verbatim>\<open>Date.now()\<close> at each place it is read, and how an \<^verbatim>\<open>LLMProvider\<close> prints in a
  template string. A promise that rejects is \<open>Inl\<close> with the exception's message.
\<close>

datatype Site =
  AtUser | AtConfigError | AtSummaryPrompt | AtSummary | AtAgent | AtTool nat
  | AtToolContext | AtFollowUp | AtCatch

datatype ToolValue = StrVal string | ObjVal string

record CompleteArgs =
  ca_provider :: LLMProvider
  ca_apiKey :: string
  ca_model :: string
  ca_systemInstruction :: string
  ca_history :: "ChatMessage list"

record StreamArgs =
  sa_provider :: LLMProvider
  sa_apiKey :: string
  sa_model :: string
  sa_systemInstruction :: string
  sa_history :: "ChatMessage list"
  sa_tools :: "Tool list option"
  sa_outputConfig :: "OutputConfig option"

datatype Call = Complete CompleteArgs | Stream StreamArgs

record Env =
  t_loc :: "string \<Rightarrow> string"
  llmConfigs :: "LLMConfig list"
  countTokens :: "ChatMessage list \<Rightarrow> nat"
  countWords :: "ChatMessage list \<Rightarrow> nat"
  countSentences :: "ChatMessage list \<Rightarrow> nat"
  generateContent :: "CompleteArgs \<Rightarrow> string + string"
  generateContentStream :: "StreamArgs \<Rightarrow> StreamOutcome"
  executeTool :: "ToolCall \<Rightarrow> string + ToolValue"
  now :: "Site \<Rightarrow> nat"
  providerName :: "LLMProvider \<Rightarrow> string"

section \<open>Strings\<close>

text \<open>
  \<^verbatim>\<open>String.prototype.trim\<close> on the characters a \<open>string\<close> has: tab, line feed,
  vertical tab, form feed, carriage return, space and the no-break space.
\<close>

definition isWhiteSpace :: "char \<Rightarrow> bool" where
  "isWhiteSpace c = (c \<in> set [CHR 0x09, CHR 0x0A, CHR 0x0B, CHR 0x0C, CHR 0x0D, CHR 0x20, CHR 0xA0])"

definition trim :: "string \<Rightarrow> string" where
  "trim s = rev (dropWhile isWhiteSpace (rev (dropWhile isWhiteSpace s)))"

text \<open>\<^verbatim>\<open>Array.prototype.join\<close>.\<close>

fun join :: "string \<Rightarrow> string list \<Rightarrow> string" where
  "join sep [] = []"
| "join sep [x] = x"
| "join sep (x # y # ys) = x @ sep @ join sep (y # ys)"

definition senderName :: "Sender \<Rightarrow> string" where
  "senderName s = (case s of SUser \<Rightarrow> ''user'' | SAgent \<Rightarrow> ''agent'' | SToolResult \<Rightarrow> ''tool_result'')"

definition erreur :: "string \<Rightarrow> string" where
  "erreur e = ''Erreur: '' @ e"

definition resumePrefix :: string where
  "resumePrefix = ''(R'' @ [CHR 0xE9] @ ''sum'' @ [CHR 0xE9] @ '' de l'' @ [CHR 0x27] @ ''historique): ''"

definition notConfigured :: "string \<Rightarrow> string" where
  "notConfigured p = ''Erreur: '' @ p @ '' n'' @ [CHR 0x27] @ ''est pas configur'' @ [CHR 0xE9]
                      @ '' ou activ'' @ [CHR 0xE9] @ ''.''"

section \<open>Tool execution (lines 1375-1404)\<close>

definition resultText :: "ToolValue \<Rightarrow> string" where
  "resultText v = (case v of StrVal s \<Rightarrow> s | ObjVal json \<Rightarrow> json)"

text \<open>The message one pass of the \<^verbatim>\<open>for (const toolCall of toolCalls)\<close> body appends.\<close>

definition toolResultMessage :: "Env \<Rightarrow> nat \<Rightarrow> ToolCall \<Rightarrow> ChatMessage" where
  "toolResultMessage env i toolCall =
     (case executeTool env toolCall of
        Inr toolResult \<Rightarrow>
          (mkMessage (MsgId (now env (AtTool i)) ''-tool-result'') SToolResult (resultText toolResult))
            \<lparr>toolCallId := Some (tc_id toolCall), toolName := Some (tc_name toolCall)\<rparr>
      | Inl err \<Rightarrow>
          (mkMessage (MsgId (now env (AtTool i)) ''-tool-error'') SToolResult (erreur err))
            \<lparr>toolCallId := Some (tc_id toolCall), toolName := Some (tc_name toolCall),
             isError := True\<rparr>)"

fun runTools :: "Env \<Rightarrow> nat \<Rightarrow> ToolCall list \<Rightarrow> NodeState \<Rightarrow> NodeState" where
  "runTools env i [] s = s"
| "runTools env i (toolCall # rest) s =
     runTools env (Suc i) rest (addNodeMessage (toolResultMessage env i toolCall) s)"

definition clearExecutingTool :: "NodeState \<Rightarrow> NodeState" where
  "clearExecutingTool s =
     setNodeMessages
       (map (\<lambda>m. if status m = Some executing_tool then m\<lparr>status := None\<rparr> else m)
          (getNodeMessages s)) s"

section \<open>The follow-up call (lines 1407-1479)\<close>

definition toolResultsSummary :: "Env \<Rightarrow> ChatMessage list \<Rightarrow> string" where
  "toolResultsSummary env toolResults =
     join [CHR 0x0A, CHR 0x0A]
       (map (\<lambda>tr. t_loc env ''tool_result_from'' @ '' ''
                   @ (case toolName tr of None \<Rightarrow> ''undefined'' | Some n \<Rightarrow> n)
                   @ '': '' @ msg_text tr) toolResults)"

definition followUpHistory :: "Env \<Rightarrow> ChatMessage list \<Rightarrow> ChatMessage list" where
  "followUpHistory env updatedMessages =
     (let messagesWithoutToolResults = filter (\<lambda>m. sender m \<noteq> SToolResult) updatedMessages;
          toolResults = filter (\<lambda>m. sender m = SToolResult) updatedMessages
      in if length toolResults > 0 then
           messagesWithoutToolResults @
             [mkMessage (MsgId (now env AtToolContext) ''-tool-context'') SUser
                (t_loc env ''tool_results_context'' @ '':'' @ [CHR 0x0A, CHR 0x0A]
                 @ toolResultsSummary env toolResults @ [CHR 0x0A, CHR 0x0A]
                 @ t_loc env ''analyze_results_request'')]
         else messagesWithoutToolResults)"

type_synonym FollowVars = "NodeState \<times> string"

definition onFollowUpChunk :: "MsgId \<Rightarrow> Chunk \<Rightarrow> FollowVars \<Rightarrow> FollowVars \<times> bool" where
  "onFollowUpChunk followUpMessageId chunk v =
     (case v of (s, followUpResponse) \<Rightarrow>
        if truthy (error chunk) then
          ((addNodeMessage
              ((mkMessage followUpMessageId SAgent (the (error chunk)))\<lparr>isError := True\<rparr>) s,
            followUpResponse), True)
        else
          (case response chunk of
             None \<Rightarrow> (v, False)
           | Some r \<Rightarrow>
               if truthy (r_text r) then
                 (let followUpResponse' = followUpResponse @ the (r_text r);
                      existing = getNodeMessages s
                  in if find (\<lambda>m. msg_id m = followUpMessageId) existing \<noteq> None
                     then ((setNodeMessages
                              (map (\<lambda>m. if msg_id m = followUpMessageId
                                         then m\<lparr>msg_text := followUpResponse'\<rparr> else m)
                                 existing) s,
                            followUpResponse'), False)
                     else ((addNodeMessage
                              (mkMessage followUpMessageId SAgent followUpResponse') s,
                            followUpResponse'), False))
               else (v, False)))"

fun followUpLoop :: "MsgId \<Rightarrow> Chunk list \<Rightarrow> FollowVars \<Rightarrow> FollowVars \<times> bool" where
  "followUpLoop followUpMessageId [] v = (v, False)"
| "followUpLoop followUpMessageId (chunk # rest) v =
     (case onFollowUpChunk followUpMessageId chunk v of
        (v', brk) \<Rightarrow> if brk then (v', True) else followUpLoop followUpMessageId rest v')"

section \<open>The history policy (lines 1251-1307)\<close>

definition shouldSummarize :: "Env \<Rightarrow> Limits \<Rightarrow> ChatMessage list \<Rightarrow> bool" where
  "shouldSummarize env lim currentFullHistory =
     (int (countTokens env currentFullHistory) \<ge> lim_token lim \<or>
      int (countWords env currentFullHistory) \<ge> lim_word lim \<or>
      int (countSentences env currentFullHistory) \<ge> lim_sentence lim \<or>
      int (countMessages currentFullHistory) \<ge> lim_message lim)"

definition summarizationPrompt :: "Env \<Rightarrow> ChatMessage list \<Rightarrow> string" where
  "summarizationPrompt env currentFullHistory =
     t_loc env ''conversation_to_summarize'' @ '':'' @ [CHR 0x0A, CHR 0x0A]
     @ join [CHR 0x0A] (map (\<lambda>m. senderName (sender m) @ '': '' @ msg_text m) currentFullHistory)"

definition summarizationCall :: "Env \<Rightarrow> HistoryConfig \<Rightarrow> LLMConfig \<Rightarrow> ChatMessage list \<Rightarrow> CompleteArgs" where
  "summarizationCall env hc summarizationConfig currentFullHistory =
     \<lparr>ca_provider = provider summarizationConfig,
      ca_apiKey = apiKey summarizationConfig,
      ca_model = h_model hc,
      ca_systemInstruction = h_systemPrompt hc,
      ca_history = [mkMessage (SummaryPromptId (now env AtSummaryPrompt)) SUser
                      (summarizationPrompt env currentFullHistory)]\<rparr>"

definition summaryMessage :: "Env \<Rightarrow> string \<Rightarrow> ChatMessage" where
  "summaryMessage env summary =
     mkMessage (MsgId (now env AtSummary) ''-summary'') SAgent (resumePrefix @ summary)"

text \<open>
  The outcome of the block: \<open>Inl\<close> when it throws (with the store and the calls so
  far), otherwise the store, the calls issued and \<^verbatim>\<open>conversationHistoryForAPI\<close>.
  \<open>messages\<close> is the component's render-time snapshot of the store.
\<close>

definition historyPolicy ::
  "Env \<Rightarrow> Agent \<Rightarrow> ChatMessage list \<Rightarrow> ChatMessage \<Rightarrow> NodeState
   \<Rightarrow> (string \<times> NodeState \<times> Call list) + (NodeState \<times> Call list \<times> ChatMessage list)" where
  "historyPolicy env agent messages userMessage s =
     (let currentFullHistory = messages @ [userMessage] in
      case historyConfig agent of
        None \<Rightarrow> Inr (s, [], [userMessage])
      | Some hc \<Rightarrow>
          if h_enabled hc \<and> length messages > 0 then
            (if shouldSummarize env (limits hc) currentFullHistory then
               (let s1 = s\<lparr>loadingMessage := t_loc env ''agentNode_history_summarizing''\<rparr> in
                case find (\<lambda>c. provider c = h_llmProvider hc) (llmConfigs env) of
                  None \<Rightarrow>
                    Inl (''Summarization LLM '' @ providerName env (h_llmProvider hc)
                         @ '' not configured.'', s1, [])
                | Some summarizationConfig \<Rightarrow>
                    (let call = summarizationCall env hc summarizationConfig currentFullHistory in
                     case generateContent env call of
                       Inl err \<Rightarrow> Inl (err, s1, [Complete call])
                     | Inr summary \<Rightarrow>
                         Inr ((setNodeMessages [summaryMessage env summary, userMessage] s1)
                                \<lparr>loadingMessage := []\<rparr>,
                              [Complete call],
                              [summaryMessage env summary, userMessage])))
             else Inr (s, [], currentFullHistory))
          else Inr (s, [], if h_enabled hc then currentFullHistory else [userMessage]))"

section \<open>After the primary stream (lines 1374-1480)\<close>

definition followUpArgs :: "Env \<Rightarrow> Agent \<Rightarrow> LLMConfig \<Rightarrow> NodeState \<Rightarrow> StreamArgs" where
  "followUpArgs env agent agentConfig s =
     \<lparr>sa_provider = llmProvider agent, sa_apiKey = apiKey agentConfig, sa_model = model agent,
      sa_systemInstruction = systemPrompt agent,
      sa_history = followUpHistory env (getNodeMessages s),
      sa_tools = tools agent, sa_outputConfig = outputConfig agent\<rparr>"

text \<open>
  Tool execution and the follow-up call. The result is how the block ends (\<open>Throws\<close>
  when the follow-up generator throws into the loop), the store and the calls issued.
\<close>

definition afterStream ::
  "Env \<Rightarrow> Agent \<Rightarrow> LLMConfig \<Rightarrow> ToolCall list \<Rightarrow> NodeState \<Rightarrow> Completion \<times> NodeState \<times> Call list" where
  "afterStream env agent agentConfig tcs s =
     (if length tcs > 0 then
        (let s1 = clearExecutingTool (runTools env 0 tcs s) in
         if Chat \<in> set (capabilities agent) then
           (let s2 = s1\<lparr>loadingMessage := t_loc env ''analyzing_results''\<rparr>;
                args = followUpArgs env agent agentConfig s2;
                followUpMessageId = MsgId (now env AtFollowUp) ''-followup''
            in case generateContentStream env args of
                 (chunks, completion) \<Rightarrow>
                   (case followUpLoop followUpMessageId chunks (s2, []) of
                      ((s3, followUpResponse), brk) \<Rightarrow>
                        (if brk then Done else completion, s3, [Stream args])))
         else (Done, s1, []))
      else (Done, s, []))"

section \<open>The body of the try block (lines 1250-1481)\<close>

definition primaryArgs :: "Agent \<Rightarrow> LLMConfig \<Rightarrow> ChatMessage list \<Rightarrow> ChatMessage \<Rightarrow> StreamArgs" where
  "primaryArgs agent agentConfig messages userMessage =
     \<lparr>sa_provider = llmProvider agent, sa_apiKey = apiKey agentConfig, sa_model = model agent,
      sa_systemInstruction = systemPrompt agent,
      sa_history = messages @ [userMessage],
      sa_tools = tools agent, sa_outputConfig = outputConfig agent\<rparr>"

text \<open>
  Up to the end of the \<^verbatim>\<open>for await\<close> loop over the primary stream: \<open>Inl\<close> when an
  exception is raised (by the history policy, or by the generator into the loop),
  otherwise the store, the recorded \<^verbatim>\<open>toolCalls\<close> and the calls issued.
\<close>

definition primaryPhase ::
  "Env \<Rightarrow> Agent \<Rightarrow> LLMConfig \<Rightarrow> ChatMessage list \<Rightarrow> ChatMessage \<Rightarrow> NodeState
   \<Rightarrow> (string \<times> NodeState \<times> Call list) + (NodeState \<times> ToolCall list \<times> Call list)" where
  "primaryPhase env agent agentConfig messages userMessage s =
     (case historyPolicy env agent messages userMessage s of
        Inl (err, s1, calls) \<Rightarrow> Inl (err, s1, calls)
      | Inr (s1, calls, conversationHistoryForAPI) \<Rightarrow>
          (let args = primaryArgs agent agentConfig messages userMessage;
               agentMessageId = MsgId (now env AtAgent) ''-agent''
           in case generateContentStream env args of
                (chunks, completion) \<Rightarrow>
                  (case streamLoop agentMessageId chunks (s1, [], []) of
                     ((s2, currentResponse, tcs), brk) \<Rightarrow>
                       (case (if brk then Done else completion) of
                          Throws err \<Rightarrow> Inl (err, s2, calls @ [Stream args])
                        | Done \<Rightarrow> Inr (s2, tcs, calls @ [Stream args])))))"

definition tryBody ::
  "Env \<Rightarrow> Agent \<Rightarrow> LLMConfig \<Rightarrow> ChatMessage list \<Rightarrow> ChatMessage \<Rightarrow> NodeState
   \<Rightarrow> Completion \<times> NodeState \<times> Call list" where
  "tryBody env agent agentConfig messages userMessage s =
     (case primaryPhase env agent agentConfig messages userMessage s of
        Inl (err, s1, calls) \<Rightarrow> (Throws err, s1, calls)
      | Inr (s2, tcs, calls) \<Rightarrow>
          (case afterStream env agent agentConfig tcs s2 of
             (c, s3, calls') \<Rightarrow> (c, s3, calls @ calls')))"

section \<open>handleSendMessage (lines 1195-1494)\<close>

text \<open>
  The user message with its attachment (lines 1208-1228); \<open>Inl\<close> when
  \<^verbatim>\<open>fileToBase64\<close> rejects, which happens before the try block.
\<close>

definition buildUserMessage :: "Env \<Rightarrow> Agent \<Rightarrow> string \<Rightarrow> File option \<Rightarrow> string + ChatMessage" where
  "buildUserMessage env agent trimmedInput file =
     (let userMessage = mkMessage (MsgId (now env AtUser) []) SUser trimmedInput in
      case file of
        None \<Rightarrow> Inr userMessage
      | Some f \<Rightarrow>
          (let um = userMessage\<lparr>filename := Some (f_name f), mimeType := Some (f_type f)\<rparr>;
               withImage = (case fileToBase64 f of
                              Inl err \<Rightarrow> Inl err
                            | Inr b \<Rightarrow> Inr (um\<lparr>msg_image := Some b\<rparr>))
           in if llmProvider agent = Mistral then
                (case fileToText f of
                   Inr txt \<Rightarrow> Inr (um\<lparr>fileContent := Some txt\<rparr>)
                 | Inl err \<Rightarrow> withImage)
              else withImage))"

definition configErrorMessage :: "Env \<Rightarrow> Agent \<Rightarrow> ChatMessage" where
  "configErrorMessage env agent =
     (mkMessage (MsgId (now env AtConfigError) []) SAgent
        (notConfigured (providerName env (llmProvider agent))))\<lparr>isError := True\<rparr>"

definition caughtErrorMessage :: "Env \<Rightarrow> string \<Rightarrow> ChatMessage" where
  "caughtErrorMessage env err =
     (mkMessage (MsgId (now env AtCatch) []) SAgent (erreur err))\<lparr>isError := True\<rparr>"

text \<open>The \<^verbatim>\<open>catch\<close> and \<^verbatim>\<open>finally\<close> blocks (lines 1482-1493) on how the try block ended.\<close>

definition catchFinally :: "Env \<Rightarrow> Completion \<times> NodeState \<times> Call list \<Rightarrow> Completion \<times> NodeState \<times> Call list" where
  "catchFinally env r =
     (case r of
        (Throws err, s3, calls) \<Rightarrow>
          (Done,
           (setNodeExecuting False (addNodeMessage (caughtErrorMessage env err) s3))
             \<lparr>loadingMessage := []\<rparr>,
           calls)
      | (Done, s3, calls) \<Rightarrow>
          (Done, (setNodeExecuting False s3)\<lparr>loadingMessage := []\<rparr>, calls))"

text \<open>The store once the user message is in it and the input is cleared (lines 1206-1232).\<close>

definition submitted :: "ChatMessage \<Rightarrow> NodeState \<Rightarrow> NodeState" where
  "submitted userMessage s =
     (addNodeMessage userMessage (setNodeExecuting True s))\<lparr>userInput := [], attachedFile := None\<rparr>"

text \<open>
  The handler on the store of its node. It returns how its promise settles (\<open>Done\<close>
  resolved, \<open>Throws\<close> rejected), the store it leaves and the dispatcher calls it
  issued, in order. \<^verbatim>\<open>messages\<close> is the snapshot \<^verbatim>\<open>getNodeMessages(id)\<close> of the render
  the handler belongs to, taken here as the store at the call.
\<close>

definition handleSendMessage :: "Env \<Rightarrow> Agent option \<Rightarrow> NodeState \<Rightarrow> Completion \<times> NodeState \<times> Call list" where
  "handleSendMessage env agentOpt s =
     (let trimmedInput = trim (userInput s);
          messages = getNodeMessages s
      in if trimmedInput = [] \<and> attachedFile s = None then (Done, s, [])
         else case agentOpt of
           None \<Rightarrow> (Done, s, [])
         | Some agent \<Rightarrow>
             (case buildUserMessage env agent trimmedInput (attachedFile s) of
                Inl err \<Rightarrow> (Throws err, setNodeExecuting True s, [])
              | Inr userMessage \<Rightarrow>
                  (let s2 = submitted userMessage s;
                       agentConfig = find (\<lambda>c. provider c = llmProvider agent) (llmConfigs env);
                       configured = (case agentConfig of
                                       None \<Rightarrow> False
                                     | Some c \<Rightarrow> enabled c \<and> apiKey c \<noteq> [])
                   in if \<not> configured then
                        (Done, setNodeExecuting False (addNodeMessage (configErrorMessage env agent) s2), [])
                      else
                        catchFinally env
                          (tryBody env agent (the agentConfig) messages userMessage s2))))"

text \<open>
  The controls of the form (lines 1823-1890): the textarea, whose Enter key calls the
  handler, and the send button, with their \<^verbatim>\<open>disabled\<close> attributes.
\<close>

definition textareaDisabled :: "NodeState \<Rightarrow> bool" where
  "textareaDisabled s = isNodeExecuting s"

definition sendDisabled :: "NodeState \<Rightarrow> bool" where
  "sendDisabled s = (isNodeExecuting s \<or> (trim (userInput s) = [] \<and> attachedFile s = None))"

section \<open>geminiService.ts\<close>

text \<open>
  The request the adapter builds for the SDK. \<open>'j\<close> is the type of parsed JSON values.
  What the adapter takes from outside is a record: \<^verbatim>\<open>JSON.parse\<close> (\<open>Inl\<close> the message of
  the \<^verbatim>\<open>SyntaxError\<close> it throws), \<^verbatim>\<open>JSON.stringify\<close>, the id
  \<^verbatim>\<open>tool-call-${Date.now()}-${Math.random()}\<close> of the n-th call of a batch, and the SDK's
  \<^verbatim>\<open>ai.models.generateContentStream\<close> run to its end: the chunks it delivers, then
  \<open>Done\<close> or the exception it raises (with no chunk when the first await rejects).
\<close>

datatype 'j Part =
  TextPart string
  | InlineData string string
  | FunctionCallPart string 'j
  | FunctionResponsePart string 'j

record 'j Content =
  role :: string
  parts :: "'j Part list"

record GeminiConfig =
  systemInstruction :: "string option"
  responseMimeType :: "string option"
  cfg_tools :: "Tool list option"

record 'j GeminiRequest =
  req_model :: string
  contents :: "'j Content list"
  config :: "GeminiConfig option"

record 'j SdkChunk =
  functionCalls :: "(string \<times> 'j) list option"
  chunk_text :: "string option"

record 'j GeminiEnv =
  parse :: "string \<Rightarrow> string + 'j"
  stringify :: "'j \<Rightarrow> string"
  newToolCallId :: "nat \<Rightarrow> string"
  sdkStream :: "'j GeminiRequest \<Rightarrow> 'j SdkChunk list \<times> Completion"

record BackendArgs =
  b_apiKey :: string
  b_model :: string
  b_systemInstruction :: string
  b_history :: "ChatMessage list option"
  b_tools :: "Tool list option"
  b_outputConfig :: "OutputConfig option"
  b_endpoint :: "string option"

definition formatTools :: "Tool list option \<Rightarrow> Tool list option" where
  "formatTools ts = (case ts of None \<Rightarrow> None | Some l \<Rightarrow> if length l = 0 then None else Some l)"

fun parseCalls :: "(string \<Rightarrow> string + 'j) \<Rightarrow> ToolCall list \<Rightarrow> string + 'j Part list" where
  "parseCalls p [] = Inr []"
| "parseCalls p (tc # tcs) =
     (case p (tc_arguments tc) of
        Inl e \<Rightarrow> Inl e
      | Inr a \<Rightarrow> (case parseCalls p tcs of
                   Inl e \<Rightarrow> Inl e
                 | Inr ps \<Rightarrow> Inr (FunctionCallPart (tc_name tc) a # ps)))"

text \<open>What one pass of the loop of \<^verbatim>\<open>formatHistory\<close> pushes, or the exception it raises.\<close>

definition formatMessage :: "(string \<Rightarrow> string + 'j) \<Rightarrow> ChatMessage \<Rightarrow> string + 'j Content list" where
  "formatMessage p msg =
     (case sender msg of
        SUser \<Rightarrow>
          Inr [\<lparr>role = ''user'',
                parts = TextPart (msg_text msg) #
                  (if truthy (msg_image msg) \<and> truthy (mimeType msg)
                   then [InlineData (the (mimeType msg)) (the (msg_image msg))] else [])\<rparr>]
      | SAgent \<Rightarrow>
          (if toolCalls msg \<noteq> None \<and> length (the (toolCalls msg)) > 0 then
             (case parseCalls p (the (toolCalls msg)) of
                Inl e \<Rightarrow> Inl e
              | Inr ps \<Rightarrow> Inr [\<lparr>role = ''model'', parts = ps\<rparr>])
           else if msg_text msg \<noteq> [] then
             Inr [\<lparr>role = ''model'', parts = [TextPart (msg_text msg)]\<rparr>]
           else Inr [])
      | SToolResult \<Rightarrow>
          (if truthy (toolName msg) then
             (case p (msg_text msg) of
                Inl e \<Rightarrow> Inl e
              | Inr v \<Rightarrow> Inr [\<lparr>role = ''function'',
                                parts = [FunctionResponsePart (the (toolName msg)) v]\<rparr>])
           else Inr []))"

fun formatMessages :: "(string \<Rightarrow> string + 'j) \<Rightarrow> ChatMessage list \<Rightarrow> string + 'j Content list" where
  "formatMessages p [] = Inr []"
| "formatMessages p (msg # rest) =
     (case formatMessage p msg of
        Inl e \<Rightarrow> Inl e
      | Inr cs \<Rightarrow> (case formatMessages p rest of
                    Inl e \<Rightarrow> Inl e
                  | Inr cs' \<Rightarrow> Inr (cs @ cs')))"

definition formatHistory :: "(string \<Rightarrow> string + 'j) \<Rightarrow> ChatMessage list option \<Rightarrow> string + 'j Content list" where
  "formatHistory p history = (case history of None \<Rightarrow> Inr [] | Some h \<Rightarrow> formatMessages p h)"

definition formatDirective :: "string \<Rightarrow> string" where
  "formatDirective fmt =
     [CHR 0x0A, CHR 0x0A] @ ''IMPORTANT: You MUST format your entire response as valid '' @ fmt
     @ ''. Do not include any text, code fences, or explanations before or after the content.''"

definition geminiConfig :: "string \<Rightarrow> Tool list option \<Rightarrow> OutputConfig option \<Rightarrow> GeminiConfig option" where
  "geminiConfig systemInstr ts oc =
     (let formattedTools = formatTools ts;
          on = (case oc of None \<Rightarrow> False | Some c \<Rightarrow> oc_enabled c);
          finalSystemInstruction =
            (if on \<and> oc_format (the oc) \<noteq> ''json''
             then systemInstr @ formatDirective (oc_format (the oc)) else systemInstr);
          cfg = \<lparr>systemInstruction =
                   (if finalSystemInstruction \<noteq> [] then Some finalSystemInstruction else None),
                 responseMimeType =
                   (if on \<and> oc_format (the oc) = ''json'' then Some ''application/json'' else None),
                 cfg_tools = formattedTools\<rparr>
      in if systemInstruction cfg = None \<and> responseMimeType cfg = None \<and> cfg_tools cfg = None
         then None else Some cfg)"

definition geminiError :: "string \<Rightarrow> string" where
  "geminiError e = ''Error: Could not get a response from Gemini. '' @ e"

definition mkToolCalls :: "'j GeminiEnv \<Rightarrow> (string \<times> 'j) list \<Rightarrow> ToolCall list" where
  "mkToolCalls g fcs =
     map (\<lambda>(i, fc). \<lparr>tc_id = newToolCallId g i, tc_name = fst fc,
                     tc_arguments = stringify g (snd fc)\<rparr>) (enumerate 0 fcs)"

definition responseChunk :: "'j SdkChunk \<Rightarrow> Chunk" where
  "responseChunk c = \<lparr>error = None, response = Some \<lparr>r_text = chunk_text c, r_toolCalls = None\<rparr>\<rparr>"

definition hasFunctionCalls :: "'j SdkChunk \<Rightarrow> bool" where
  "hasFunctionCalls c = (case functionCalls c of None \<Rightarrow> False | Some fcs \<Rightarrow> length fcs > 0)"

text \<open>
  The try block of \<^verbatim>\<open>generateContentStream\<close> (lines 85-112) over what the SDK delivers:
  the \<^verbatim>\<open>for await\<close> loop, and the \<^verbatim>\<open>catch\<close> that yields the error element.
\<close>

fun geminiLoop :: "'j GeminiEnv \<Rightarrow> 'j SdkChunk list \<Rightarrow> Completion \<Rightarrow> StreamOutcome" where
  "geminiLoop g [] Done = ([], Done)"
| "geminiLoop g [] (Throws e) = ([errorChunk (geminiError e)], Done)"
| "geminiLoop g (c # cs) completion =
     (if hasFunctionCalls c then ([toolCallsChunk (mkToolCalls g (the (functionCalls c)))], Done)
      else (case geminiLoop g cs completion of
              (out, fin) \<Rightarrow> (responseChunk c # out, fin)))"

definition geminiService_generateContentStream :: "'j GeminiEnv \<Rightarrow> BackendArgs \<Rightarrow> StreamOutcome" where
  "geminiService_generateContentStream g a =
     (case formatHistory (parse g) (b_history a) of
        Inl e \<Rightarrow> ([], Throws e)
      | Inr formattedHistory \<Rightarrow>
          (case sdkStream g \<lparr>req_model = b_model a, contents = formattedHistory,
                             config = geminiConfig (b_systemInstruction a) (b_tools a)
                                        (b_outputConfig a)\<rparr> of
             (chunks, completion) \<Rightarrow> geminiLoop g chunks completion))"

section \<open>llmService.ts: the dispatcher\<close>

text \<open>
  A provider module, as far as the streaming entry point reads it: its export
  \<^verbatim>\<open>generateContentStream\<close>, \<open>None\<close> when the module has no such export.
  \<^verbatim>\<open>arcLLMService.ts\<close> exports \<^verbatim>\<open>generateVideo\<close>, \<^verbatim>\<open>pollVideoStatus\<close>,
  \<^verbatim>\<open>generateContentWithMaps\<close>, \<^verbatim>\<open>generateContentWithWebSearch\<close> and
  \<^verbatim>\<open>getUserLocation\<close> only. The modules of the other providers are not among the sources and
  are the parameter \<open>others\<close>.
\<close>

record Service =
  svc_generateContentStream :: "(BackendArgs \<Rightarrow> StreamOutcome) option"

definition geminiService :: "'j GeminiEnv \<Rightarrow> Service" where
  "geminiService g = \<lparr>svc_generateContentStream = Some (geminiService_generateContentStream g)\<rparr>"

definition arcLLMService :: Service where
  "arcLLMService = \<lparr>svc_generateContentStream = None\<rparr>"

definition getServiceProvider :: "'j GeminiEnv \<Rightarrow> (LLMProvider \<Rightarrow> Service) \<Rightarrow> LLMProvider \<Rightarrow> Service" where
  "getServiceProvider g others p =
     (case p of
        Gemini \<Rightarrow> geminiService g
      | ArcLLM \<Rightarrow> arcLLMService
      | OtherProvider x \<Rightarrow> geminiService g
      | _ \<Rightarrow> others p)"

definition notAFunction :: string where
  "notAFunction = ''service.generateContentStream is not a function''"

text \<open>
  \<^verbatim>\<open>llmService.generateContentStream\<close> (lines 569-582 of the dispatcher's file):
  \<^verbatim>\<open>yield*\<close> hands on every element and the completion of the module's generator; calling
  an absent export raises a \<^verbatim>\<open>TypeError\<close> inside the dispatcher's generator.
\<close>

definition llmService_generateContentStream ::
  "'j GeminiEnv \<Rightarrow> (LLMProvider \<Rightarrow> Service) \<Rightarrow> string option \<Rightarrow> StreamArgs \<Rightarrow> StreamOutcome" where
  "llmService_generateContentStream g others endpoint a =
     (let service = getServiceProvider g others (sa_provider a);
          args = \<lparr>b_apiKey = sa_apiKey a, b_model = sa_model a,
                  b_systemInstruction = sa_systemInstruction a,
                  b_history = Some (sa_history a), b_tools = sa_tools a,
                  b_outputConfig = sa_outputConfig a,
                  b_endpoint =
                    (if sa_provider a = LMStudio
                     then Some (if truthy endpoint then the endpoint else ''http://localhost:3928'')
                     else None)\<rparr>
      in case svc_generateContentStream service of
           None \<Rightarrow> ([], Throws notAFunction)
         | Some f \<Rightarrow> f args)"

section \<open>Observations\<close>

text \<open>
  The text of the in-progress message: the message the loop's \<^verbatim>\<open>find\<close> returns for the
  id, empty while there is none. \<open>textOf\<close> is the text increment an element carries;
  \<open>isTextOnly\<close> says it is neither an error nor a tool-call increment.
\<close>

definition draftText :: "MsgId \<Rightarrow> NodeState \<Rightarrow> string" where
  "draftText i s = (case find (\<lambda>m. msg_id m = i) (getNodeMessages s) of None \<Rightarrow> [] | Some m \<Rightarrow> msg_text m)"

definition textOf :: "Chunk \<Rightarrow> string" where
  "textOf c = (case response c of None \<Rightarrow> [] | Some r \<Rightarrow> (case r_text r of None \<Rightarrow> [] | Some x \<Rightarrow> x))"

definition isTextOnly :: "Chunk \<Rightarrow> bool" where
  "isTextOnly c = (\<not> truthy (error c) \<and> (case response c of None \<Rightarrow> True | Some r \<Rightarrow> r_toolCalls r = None))"

definition loopStore :: "LoopVars \<times> bool \<Rightarrow> NodeState" where
  "loopStore r = fst (fst r)"

text \<open>
  \<open>turnStarts\<close>: the submission passes the guards of lines 1197-1248 (content to send,
  the attachment read, the agent's provider configured, enabled and with a key), so the
  try block runs with this user message and this provider configuration.
  \<open>compactionDue\<close>: the condition of lines 1256-1270 under which the policy summarizes.
  \<open>callsOf\<close> and \<open>storeOf\<close> read the handler's result.
\<close>

definition turnStarts :: "Env \<Rightarrow> Agent \<Rightarrow> NodeState \<Rightarrow> ChatMessage \<Rightarrow> LLMConfig \<Rightarrow> bool" where
  "turnStarts env agent s userMessage agentConfig =
     ((trim (userInput s) \<noteq> [] \<or> attachedFile s \<noteq> None) \<and>
      buildUserMessage env agent (trim (userInput s)) (attachedFile s) = Inr userMessage \<and>
      find (\<lambda>c. provider c = llmProvider agent) (llmConfigs env) = Some agentConfig \<and>
      enabled agentConfig \<and> apiKey agentConfig \<noteq> [])"

definition compactionDue :: "Env \<Rightarrow> Agent \<Rightarrow> HistoryConfig \<Rightarrow> ChatMessage list \<Rightarrow> ChatMessage \<Rightarrow> bool" where
  "compactionDue env agent hc messages userMessage =
     (historyConfig agent = Some hc \<and> h_enabled hc \<and> length messages > 0 \<and>
      shouldSummarize env (limits hc) (messages @ [userMessage]))"

text \<open>
  \<open>toolResultMessages\<close>: the messages the tool loop appends for a batch, in call order.
  \<open>policyEnabled\<close>: \<^verbatim>\<open>historyConfig?.enabled\<close>.
\<close>

definition toolResultMessages :: "Env \<Rightarrow> ToolCall list \<Rightarrow> ChatMessage list" where
  "toolResultMessages env tcs = map (\<lambda>(k, tc). toolResultMessage env k tc) (enumerate 0 tcs)"

definition callsOf :: "Completion \<times> NodeState \<times> Call list \<Rightarrow> Call list" where
  "callsOf r = snd (snd r)"

definition storeOf :: "Completion \<times> NodeState \<times> Call list \<Rightarrow> NodeState" where
  "storeOf r = fst (snd r)"

definition policyEnabled :: "Agent \<Rightarrow> bool" where
  "policyEnabled agent = (case historyConfig agent of None \<Rightarrow> False | Some hc \<Rightarrow> h_enabled hc)"

section \<open>Concrete inputs\<close>

text \<open>
  The inputs the properties are instantiated at. \<open>demoEnv\<close> has one configured provider
  (Gemini), a summarization call that returns \<open>S\<close>, a stream that answers \<open>ok\<close>, a
  tool executor that throws on the tool \<open>boom\<close>, and a clock that stands at 7;
  \<open>quietEnv\<close> streams nothing and \<open>toolEnv\<close> streams one tool call, \<open>batchEnv\<close> a batch of three whose second
  throws. \<open>idleStore\<close> is
  an empty session with the input \<open>hi\<close>, \<open>busyStore\<close> the same while executing,
  \<open>fullStore\<close> a session of five messages with the input \<open>sixth\<close>. \<open>demoAgent\<close> has
  the policy enabled with a message threshold of 5; \<open>eagerAgent\<close> has a threshold of 1,
  \<open>plainAgent\<close> no policy, \<open>strandedAgent\<close> a summarization provider that is not
  configured, \<open>firstStrandedAgent\<close> both that and a threshold of 1, \<open>noChatAgent\<close> no \<open>Chat\<close> capability. \<open>stubGemini\<close> is an SDK that
  delivers one chunk and then fails.
\<close>

definition idleStore :: NodeState where
  "idleStore = \<lparr>nodeMessages = [], nodeExecuting = False, userInput = ''hi'',
                 attachedFile = None, loadingMessage = []\<rparr>"

definition demoEnv :: Env where
  "demoEnv = \<lparr>t_loc = (\<lambda>k. k),
              llmConfigs = [\<lparr>provider = Gemini, enabled = True, apiKey = ''key''\<rparr>],
              countTokens = (\<lambda>ms. 0), countWords = (\<lambda>ms. 0), countSentences = (\<lambda>ms. 0),
              generateContent = (\<lambda>a. Inr ''S''),
              generateContentStream = (\<lambda>a. ([textChunk ''ok''], Done)),
              executeTool = (\<lambda>tc. if tc_name tc = ''boom'' then Inl ''failed''
                                   else Inr (StrVal ''done'')),
              now = (\<lambda>site. 7),
              providerName = (\<lambda>p. ''provider'')\<rparr>"

definition demoCall :: "string \<Rightarrow> string \<Rightarrow> ToolCall" where
  "demoCall i n = \<lparr>tc_id = i, tc_name = n, tc_arguments = ''{}''\<rparr>"

definition threeCalls :: "ToolCall list" where
  "threeCalls = [demoCall ''c1'' ''get_weather'', demoCall ''c2'' ''boom'', demoCall ''c3'' ''get_time'']"

definition demoLimits :: Limits where
  "demoLimits = \<lparr>lim_token = 800, lim_word = 1000, lim_sentence = 50, lim_message = 5\<rparr>"

definition demoHistoryConfig :: HistoryConfig where
  "demoHistoryConfig = \<lparr>h_enabled = True, h_llmProvider = Gemini, h_model = ''hm'',
                         h_systemPrompt = ''hs'', limits = demoLimits\<rparr>"

definition demoAgent :: Agent where
  "demoAgent = \<lparr>llmProvider = Gemini, model = ''m'', systemPrompt = ''sys'',
                capabilities = [Chat, FunctionCalling], tools = None, outputConfig = None,
                historyConfig = Some demoHistoryConfig\<rparr>"

definition demoConfig :: LLMConfig where
  "demoConfig = \<lparr>provider = Gemini, enabled = True, apiKey = ''key''\<rparr>"

definition quietEnv :: Env where
  "quietEnv = demoEnv\<lparr>generateContentStream := (\<lambda>a. ([], Done))\<rparr>"

definition toolEnv :: Env where
  "toolEnv = demoEnv\<lparr>generateContentStream :=
                       (\<lambda>a. ([toolCallsChunk [demoCall ''c1'' ''get_weather'']], Done))\<rparr>"

definition prior :: "nat \<Rightarrow> ChatMessage" where
  "prior n = mkMessage (MsgId n []) SUser ''earlier''"

definition fullStore :: NodeState where
  "fullStore = \<lparr>nodeMessages = [prior 1, prior 2, prior 3, prior 4, prior 5],
                 nodeExecuting = False, userInput = ''sixth'',
                 attachedFile = None, loadingMessage = []\<rparr>"

definition sixth :: ChatMessage where
  "sixth = mkMessage (MsgId 7 []) SUser ''sixth''"

definition hello :: ChatMessage where
  "hello = mkMessage (MsgId 7 []) SUser ''hi''"

definition noChatAgent :: Agent where
  "noChatAgent = demoAgent\<lparr>capabilities := [FunctionCalling]\<rparr>"

definition strandedAgent :: Agent where
  "strandedAgent = demoAgent\<lparr>historyConfig := Some (demoHistoryConfig\<lparr>h_llmProvider := OpenAI\<rparr>)\<rparr>"

definition eagerAgent :: Agent where
  "eagerAgent = demoAgent\<lparr>historyConfig :=
                  Some (demoHistoryConfig\<lparr>limits := demoLimits\<lparr>lim_message := 1\<rparr>\<rparr>)\<rparr>"

definition plainAgent :: Agent where
  "plainAgent = demoAgent\<lparr>historyConfig := None\<rparr>"

definition busyStore :: NodeState where
  "busyStore = idleStore\<lparr>nodeExecuting := True\<rparr>"

definition stubGemini :: "string GeminiEnv" where
  "stubGemini = \<lparr>parse = Inr, stringify = (\<lambda>j. j), newToolCallId = (\<lambda>i. ''tool-call''),
                  sdkStream = (\<lambda>r. ([\<lparr>functionCalls = None, chunk_text = Some ''par''\<rparr>],
                                     Throws ''network down''))\<rparr>"

definition demoStreamArgs :: "LLMProvider \<Rightarrow> StreamArgs" where
  "demoStreamArgs p = \<lparr>sa_provider = p, sa_apiKey = ''key'', sa_model = ''m'',
                        sa_systemInstruction = ''sys'', sa_history = [hello],
                        sa_tools = None, sa_outputConfig = None\<rparr>"

definition batchEnv :: Env where
  "batchEnv = demoEnv\<lparr>generateContentStream := (\<lambda>a. ([toolCallsChunk threeCalls], Done))\<rparr>"

definition firstStrandedAgent :: Agent where
  "firstStrandedAgent = demoAgent\<lparr>historyConfig :=
      Some (demoHistoryConfig\<lparr>h_llmProvider := OpenAI, limits := demoLimits\<lparr>lim_message := 1\<rparr>\<rparr>)\<rparr>"

section \<open>Properties of the primary stream loop\<close>

lemma find_update_text:
  "find (\<lambda>m. msg_id m = i) ms = Some m0 \<Longrightarrow>
   find (\<lambda>m. msg_id m = i) (map (\<lambda>m. if msg_id m = i then m\<lparr>msg_text := x\<rparr> else m) ms)
     = Some (m0\<lparr>msg_text := x\<rparr>)"
  by (induction ms) (auto split: if_splits)

lemma find_replace:
  "find (\<lambda>m. msg_id m = i) ms = Some m0 \<Longrightarrow> msg_id tm = i \<Longrightarrow>
   find (\<lambda>m. msg_id m = i) (map (\<lambda>m. if msg_id m = i then tm else m) ms) = Some tm"
  by (induction ms) (auto split: if_splits)

lemma find_none_map:
  "find (\<lambda>m. msg_id m = i) ms = None \<Longrightarrow> map (\<lambda>m. if msg_id m = i then f m else m) ms = ms"
  by (induction ms) (auto split: if_splits)

lemma find_snoc:
  "find P (ms @ [x]) = (case find P ms of None \<Rightarrow> (if P x then Some x else None) | Some y \<Rightarrow> Some y)"
  by (induction ms) auto

lemma onText_cur:
  "draftText i s = cur \<Longrightarrow> onText i c (s, cur, tcs) = (s', cur', tcs') \<Longrightarrow>
   cur' = cur @ textOf c \<and> draftText i s' = cur'"
  unfolding onText_def draftText_def textOf_def truthy_def getNodeMessages_def
     setNodeMessages_def addNodeMessage_def mkMessage_def
  by (auto split: option.splits if_splits simp: Let_def find_update_text find_snoc)

lemma onToolCalls_cur:
  "draftText i s = cur \<Longrightarrow> onToolCalls i c (s, cur, tcs) = (s', cur', tcs') \<Longrightarrow>
   cur' = cur \<and> draftText i s' = cur"
  unfolding onToolCalls_def draftText_def getNodeMessages_def
     setNodeMessages_def addNodeMessage_def mkMessage_def
  by (auto split: option.splits if_splits simp: Let_def find_replace find_none_map)

lemma onChunk_cur:
  assumes "draftText i s = cur" and "onChunk i c (s, cur, tcs) = ((s', cur', tcs'), brk)"
  shows "length cur \<le> length (draftText i s')"
    and "\<not> brk \<Longrightarrow> draftText i s' = cur' \<and> cur' = cur @ textOf c"
    and "isTextOnly c \<Longrightarrow> \<not> brk"
proof -
  obtain s1 cur1 tcs1 where t: "onText i c (s, cur, tcs) = (s1, cur1, tcs1)"
    by (cases "onText i c (s, cur, tcs)") auto
  from onText_cur[OF assms(1) t] have c1: "cur1 = cur @ textOf c" "draftText i s1 = cur1" by auto
  show "length cur \<le> length (draftText i s')"
  proof (cases "truthy (error c)")
    case True
    with assms show ?thesis
      by (auto simp: onChunk_def draftText_def getNodeMessages_def addNodeMessage_def find_snoc
               split: option.splits)
  next
    case False
    with assms(2) t have "onToolCalls i c (s1, cur1, tcs1) = (s', cur', tcs')"
      by (simp add: onChunk_def)
    from onToolCalls_cur[OF c1(2) this] c1 show ?thesis by simp
  qed
  show "draftText i s' = cur' \<and> cur' = cur @ textOf c" if "\<not> brk"
  proof -
    from that assms(2) have ne: "\<not> truthy (error c)"
      by (auto simp: onChunk_def split: if_splits)
    with assms(2) t have "onToolCalls i c (s1, cur1, tcs1) = (s', cur', tcs')"
      by (simp add: onChunk_def)
    from onToolCalls_cur[OF c1(2) this] c1 show ?thesis by simp
  qed
  show "\<not> brk" if "isTextOnly c"
    using that assms(2) by (auto simp: onChunk_def isTextOnly_def split: if_splits)
qed

lemma streamLoop_cur:
  "draftText i s = cur \<Longrightarrow> streamLoop i cs (s, cur, tcs) = ((s', cur', tcs'), brk) \<Longrightarrow>
   length cur \<le> length (draftText i s') \<and> (\<not> brk \<longrightarrow> draftText i s' = cur') \<and>
   ((\<forall>c\<in>set cs. isTextOnly c) \<longrightarrow> draftText i s' = cur @ concat (map textOf cs))"
proof (induction cs arbitrary: s cur tcs)
  case Nil
  then show ?case by simp
next
  case (Cons c cs)
  obtain s1 cur1 tcs1 b1 where st: "onChunk i c (s, cur, tcs) = ((s1, cur1, tcs1), b1)"
    by (metis prod.exhaust)
  note oc = onChunk_cur[OF Cons.prems(1) st]
  show ?case
  proof (cases b1)
    case True
    with Cons.prems(2) st have "s' = s1" "brk" by auto
    with oc True show ?thesis by auto
  next
    case False
    with Cons.prems(2) st have rest: "streamLoop i cs (s1, cur1, tcs1) = ((s', cur', tcs'), brk)"
      by simp
    from oc(2)[OF False] have d1: "draftText i s1 = cur1" and c1: "cur1 = cur @ textOf c" by auto
    from Cons.IH[OF d1 rest] c1 show ?thesis by auto
  qed
qed

lemma streamLoop_append:
  "streamLoop i (xs @ ys) v =
     (case streamLoop i xs v of (v', brk) \<Rightarrow> if brk then (v', True) else streamLoop i ys v')"
  by (induction xs arbitrary: v) (auto split: prod.splits)

text \<open>
  C9. While a stream is consumed, the text of the in-progress agent message never gets
  shorter: after any elements \<open>chunks\<close> it is at most as long as after \<open>chunks @ later\<close>.
  When every element is a text increment (no error, no tool calls), the text at the end
  is the concatenation, in order, of all the text increments. The id of the in-progress
  message is taken as new to the store.
\<close>

theorem stream_text_monotone:
  assumes "find (\<lambda>m. msg_id m = agentMessageId) (getNodeMessages s) = None"
  shows "length (draftText agentMessageId (loopStore (streamLoop agentMessageId chunks (s, [], []))))
           \<le> length (draftText agentMessageId
                       (loopStore (streamLoop agentMessageId (chunks @ later) (s, [], []))))
         \<and> ((\<forall>c\<in>set chunks. isTextOnly c) \<longrightarrow>
              draftText agentMessageId (loopStore (streamLoop agentMessageId chunks (s, [], [])))
                = concat (map textOf chunks))"
proof -
  let ?i = agentMessageId
  have d0: "draftText ?i s = []" using assms by (simp add: draftText_def)
  obtain s1 cur1 tcs1 b1 where r1: "streamLoop ?i chunks (s, [], []) = ((s1, cur1, tcs1), b1)"
    by (metis prod.exhaust)
  note one = streamLoop_cur[OF d0 r1]
  have mono: "length (draftText ?i s1)
                \<le> length (draftText ?i (loopStore (streamLoop ?i (chunks @ later) (s, [], []))))"
  proof (cases b1)
    case True
    then show ?thesis by (simp add: streamLoop_append r1 loopStore_def)
  next
    case False
    obtain s2 cur2 tcs2 b2 where r2: "streamLoop ?i later (s1, cur1, tcs1) = ((s2, cur2, tcs2), b2)"
      by (metis prod.exhaust)
    from one False have "draftText ?i s1 = cur1" by simp
    from streamLoop_cur[OF this r2] \<open>draftText ?i s1 = cur1\<close>
    show ?thesis using False by (simp add: streamLoop_append r1 r2 loopStore_def)
  qed
  from one mono show ?thesis by (simp add: r1 loopStore_def)
qed

theorem stream_text_monotone_witness:
  "find (\<lambda>m. msg_id m = MsgId 7 ''-agent'') (getNodeMessages idleStore) = None
   \<and> length (draftText (MsgId 7 ''-agent'')
               (loopStore (streamLoop (MsgId 7 ''-agent'') [textChunk ''Hel''] (idleStore, [], []))))
       \<le> length (draftText (MsgId 7 ''-agent'')
                   (loopStore (streamLoop (MsgId 7 ''-agent'')
                                 ([textChunk ''Hel''] @ [textChunk ''lo'']) (idleStore, [], []))))
   \<and> isTextOnly (textChunk ''Hel'') \<and> isTextOnly (textChunk ''lo'')
   \<and> draftText (MsgId 7 ''-agent'')
        (loopStore (streamLoop (MsgId 7 ''-agent'') [textChunk ''Hel'', textChunk ''lo'']
                      (idleStore, [], [])))
       = ''Hello''"
proof -
  have fresh: "find (\<lambda>m. msg_id m = MsgId 7 ''-agent'') (getNodeMessages idleStore) = None"
    by (simp add: idleStore_def getNodeMessages_def)
  have only: "\<forall>c\<in>set [textChunk ''Hel'', textChunk ''lo'']. isTextOnly c"
    by (simp add: isTextOnly_def textChunk_def truthy_def)
  have cat: "concat (map textOf [textChunk ''Hel'', textChunk ''lo'']) = ''Hello''"
    by (simp add: textOf_def textChunk_def)
  note mono = stream_text_monotone[OF fresh, of "[textChunk ''Hel'']" "[textChunk ''lo'']",
                  THEN conjunct1]
  note final = stream_text_monotone[OF fresh, of "[textChunk ''Hel'', textChunk ''lo'']" "[]",
                  THEN conjunct2, THEN mp, OF only]
  from final cat
  have "draftText (MsgId 7 ''-agent'')
          (loopStore (streamLoop (MsgId 7 ''-agent'') [textChunk ''Hel'', textChunk ''lo'']
                        (idleStore, [], []))) = ''Hello''"
    by (simp only:)
  with fresh mono only show ?thesis by simp
qed

text \<open>
  C7. The loop at the stream \<open>text "Hel", error "boom"\<close>: the error element appends an
  error-flagged message under the id of the in-progress message and ends the loop. The
  in-progress message stays in the store with its partial text \<open>Hel\<close>; it is not
  converted, and the store holds two messages with one id.
\<close>

theorem error_after_text_keeps_partial:
  "streamLoop (MsgId 7 ''-agent'') [textChunk ''Hel'', errorChunk ''boom''] (idleStore, [], [])
     = ((idleStore\<lparr>nodeMessages :=
            [mkMessage (MsgId 7 ''-agent'') SAgent ''Hel'',
             (mkMessage (MsgId 7 ''-agent'') SAgent ''boom'')\<lparr>isError := True\<rparr>]\<rparr>,
         ''Hel'', []), True)"
  by (simp add: Let_def onChunk_def onText_def onToolCalls_def textChunk_def errorChunk_def truthy_def
        idleStore_def getNodeMessages_def addNodeMessage_def setNodeMessages_def mkMessage_def)

section \<open>Properties of tool execution\<close>

lemma runTools_messages:
  "runTools env i tcs s =
     s\<lparr>nodeMessages := nodeMessages s @ map (\<lambda>(k, tc). toolResultMessage env k tc) (enumerate i tcs)\<rparr>"
  by (induction tcs arbitrary: i s) (auto simp: addNodeMessage_def)

lemma toolResultMessage_fields:
  "sender (toolResultMessage env k tc) = SToolResult"
  "toolCallId (toolResultMessage env k tc) = Some (tc_id tc)"
  "toolName (toolResultMessage env k tc) = Some (tc_name tc)"
  "isError (toolResultMessage env k tc) = isl (executeTool env tc)"
  by (auto simp: toolResultMessage_def mkMessage_def split: sum.splits)

section \<open>Properties of the handler\<close>

lemma handle_turn:
  assumes "turnStarts env agent s um cfg"
  shows "handleSendMessage env (Some agent) s
           = catchFinally env (tryBody env agent cfg (getNodeMessages s) um (submitted um s))"
  using assms unfolding turnStarts_def handleSendMessage_def
  by (auto simp: Let_def)

lemma policy_unresolved:
  assumes "compactionDue env agent hc messages um"
      and "find (\<lambda>c. provider c = h_llmProvider hc) (llmConfigs env) = None"
  shows "historyPolicy env agent messages um s
           = Inl (''Summarization LLM '' @ providerName env (h_llmProvider hc) @ '' not configured.'',
                  s\<lparr>loadingMessage := t_loc env ''agentNode_history_summarizing''\<rparr>, [])"
  using assms unfolding compactionDue_def historyPolicy_def by (simp add: Let_def)

lemma policy_compacts:
  assumes "compactionDue env agent hc messages um"
      and "find (\<lambda>c. provider c = h_llmProvider hc) (llmConfigs env) = Some sc"
  shows "historyPolicy env agent messages um s
           = (case generateContent env (summarizationCall env hc sc (messages @ [um])) of
                Inl err \<Rightarrow> Inl (err, s\<lparr>loadingMessage := t_loc env ''agentNode_history_summarizing''\<rparr>,
                                [Complete (summarizationCall env hc sc (messages @ [um]))])
              | Inr summary \<Rightarrow>
                  Inr (s\<lparr>nodeMessages := [summaryMessage env summary, um], loadingMessage := []\<rparr>,
                       [Complete (summarizationCall env hc sc (messages @ [um]))],
                       [summaryMessage env summary, um]))"
  using assms unfolding compactionDue_def historyPolicy_def
  by (simp add: Let_def setNodeMessages_def split: sum.splits)

text \<open>
  C5 (amended). When compaction is due (the policy enabled, a non-empty prior history,
  a counter at its threshold) and the configured providers have no entry for the policy's
  summarization provider, the turn ends with the session holding the prior messages, the
  user message and one error-flagged agent message; the executing flag is cleared and no
  dispatcher call was issued, neither the summarization nor the primary stream.
\<close>

theorem summarization_unavailable_is_fatal:
  assumes "turnStarts env agent s userMessage agentConfig"
      and "compactionDue env agent hc (getNodeMessages s) userMessage"
      and "find (\<lambda>c. provider c = h_llmProvider hc) (llmConfigs env) = None"
  shows "handleSendMessage env (Some agent) s
           = (Done,
              s\<lparr>nodeMessages := getNodeMessages s @
                   [userMessage,
                    caughtErrorMessage env
                      (''Summarization LLM '' @ providerName env (h_llmProvider hc)
                       @ '' not configured.'')],
                nodeExecuting := False, userInput := [], attachedFile := None,
                loadingMessage := []\<rparr>,
              [])
         \<and> isError (caughtErrorMessage env
                      (''Summarization LLM '' @ providerName env (h_llmProvider hc)
                       @ '' not configured.''))
         \<and> sender (caughtErrorMessage env
                      (''Summarization LLM '' @ providerName env (h_llmProvider hc)
                       @ '' not configured.'')) = SAgent"
proof -
  have "tryBody env agent agentConfig (getNodeMessages s) userMessage (submitted userMessage s)
          = (Throws (''Summarization LLM '' @ providerName env (h_llmProvider hc) @ '' not configured.''),
             (submitted userMessage s)\<lparr>loadingMessage := t_loc env ''agentNode_history_summarizing''\<rparr>, [])"
    by (simp add: tryBody_def primaryPhase_def policy_unresolved[OF assms(2,3)])
  then show ?thesis
    by (simp add: handle_turn[OF assms(1)] catchFinally_def submitted_def addNodeMessage_def
          setNodeExecuting_def getNodeMessages_def caughtErrorMessage_def mkMessage_def)
qed

lemma toolResult_status: "status (toolResultMessage env k tc) = None"
  by (simp add: toolResultMessage_def mkMessage_def split: sum.splits)

lemma clear_after_tools:
  "getNodeMessages (clearExecutingTool (runTools env 0 tcs s))
     = getNodeMessages (clearExecutingTool s) @ toolResultMessages env tcs"
proof -
  have "map (\<lambda>m. if status m = Some executing_tool then m\<lparr>status := None\<rparr> else m)
          (map (\<lambda>(k, tc). toolResultMessage env k tc) (enumerate 0 tcs))
        = map (\<lambda>(k, tc). toolResultMessage env k tc) (enumerate 0 tcs)"
    by (rule map_idI) (auto simp: toolResult_status)
  then show ?thesis
    by (simp add: clearExecutingTool_def getNodeMessages_def setNodeMessages_def runTools_messages
          toolResultMessages_def)
qed

text \<open>
  C8. After a primary stream that recorded tool calls (a non-empty list), the calls the
  handler issues are those up to the primary stream, followed by the follow-up stream call
  exactly when the agent's capabilities include \<open>Chat\<close>. Without \<open>Chat\<close> the handler
  resolves right after tool execution: the executing flag is cleared and the session ends
  with the tool results, one per call.
\<close>

theorem follow_up_gating:
  assumes "turnStarts env agent s userMessage agentConfig"
      and "primaryPhase env agent agentConfig (getNodeMessages s) userMessage (submitted userMessage s)
             = Inr (s2, tcs, calls)"
      and "tcs \<noteq> []"
  shows "snd (snd (handleSendMessage env (Some agent) s))
           = calls @ (if Chat \<in> set (capabilities agent)
                      then [Stream (followUpArgs env agent agentConfig
                                     ((clearExecutingTool (runTools env 0 tcs s2))
                                        \<lparr>loadingMessage := t_loc env ''analyzing_results''\<rparr>))]
                      else [])
         \<and> (Chat \<notin> set (capabilities agent) \<longrightarrow>
              handleSendMessage env (Some agent) s
                = (Done,
                   (setNodeExecuting False (clearExecutingTool (runTools env 0 tcs s2)))
                     \<lparr>loadingMessage := []\<rparr>,
                   calls)
              \<and> getNodeMessages (fst (snd (handleSendMessage env (Some agent) s)))
                  = getNodeMessages (clearExecutingTool s2) @ toolResultMessages env tcs
              \<and> \<not> isNodeExecuting (fst (snd (handleSendMessage env (Some agent) s))))"
proof (cases "Chat \<in> set (capabilities agent)")
  case True
  with assms(3) have "snd (snd (afterStream env agent agentConfig tcs s2))
      = [Stream (followUpArgs env agent agentConfig
                  ((clearExecutingTool (runTools env 0 tcs s2))
                     \<lparr>loadingMessage := t_loc env ''analyzing_results''\<rparr>))]"
    by (auto simp: afterStream_def Let_def split: prod.splits)
  with True show ?thesis
    by (auto simp: handle_turn[OF assms(1)] tryBody_def assms(2) catchFinally_def
             split: prod.splits Completion.splits)
next
  case False
  with assms(3) have "afterStream env agent agentConfig tcs s2
      = (Done, clearExecutingTool (runTools env 0 tcs s2), [])"
    by (simp add: afterStream_def Let_def)
  then have "tryBody env agent agentConfig (getNodeMessages s) userMessage (submitted userMessage s)
      = (Done, clearExecutingTool (runTools env 0 tcs s2), calls)"
    by (simp add: tryBody_def assms(2))
  then have h: "handleSendMessage env (Some agent) s
      = (Done, (setNodeExecuting False (clearExecutingTool (runTools env 0 tcs s2)))
                 \<lparr>loadingMessage := []\<rparr>, calls)"
    by (simp add: handle_turn[OF assms(1)] catchFinally_def)
  have "getNodeMessages ((setNodeExecuting False (clearExecutingTool (runTools env 0 tcs s2)))
                 \<lparr>loadingMessage := []\<rparr>)
         = getNodeMessages (clearExecutingTool s2) @ toolResultMessages env tcs"
    using clear_after_tools[of env tcs s2] by (simp add: getNodeMessages_def setNodeExecuting_def)
  with False h show ?thesis
    by (simp add: isNodeExecuting_def setNodeExecuting_def)
qed

lemma map_fix_prefix: "(\<forall>m\<in>set p. f m = m) \<Longrightarrow> map f (p @ r) = p @ map f r"
  by (simp add: map_idI)

lemma onText_prefix:
  assumes "\<forall>m\<in>set p. msg_id m \<noteq> aid" "nodeMessages s = p @ r"
      and "onText aid c (s, cur, tcs) = (s', cur', tcs')"
  shows "\<exists>r'. nodeMessages s' = p @ r'"
proof -
  have "map (\<lambda>m. if msg_id m = aid then m\<lparr>msg_text := x\<rparr> else m) (p @ r)
          = p @ map (\<lambda>m. if msg_id m = aid then m\<lparr>msg_text := x\<rparr> else m) r" for x
    using assms(1) by (intro map_fix_prefix) auto
  with assms(2,3) show ?thesis
    unfolding onText_def
    by (auto simp: Let_def getNodeMessages_def setNodeMessages_def addNodeMessage_def
             split: option.splits if_splits)
qed

lemma onToolCalls_prefix:
  assumes "\<forall>m\<in>set p. msg_id m \<noteq> aid" "nodeMessages s = p @ r"
      and "onToolCalls aid c (s, cur, tcs) = (s', cur', tcs')"
  shows "\<exists>r'. nodeMessages s' = p @ r'"
proof -
  have "map (\<lambda>m. if msg_id m = aid then x else m) (p @ r)
          = p @ map (\<lambda>m. if msg_id m = aid then x else m) r" for x
    using assms(1) by (intro map_fix_prefix) auto
  with assms(2,3) show ?thesis
    unfolding onToolCalls_def
    by (auto simp: Let_def getNodeMessages_def setNodeMessages_def
             split: option.splits if_splits)
qed

lemma onChunk_prefix:
  assumes "\<forall>m\<in>set p. msg_id m \<noteq> aid" "nodeMessages s = p @ r"
      and "onChunk aid c (s, cur, tcs) = ((s', cur', tcs'), brk)"
  shows "\<exists>r'. nodeMessages s' = p @ r'"
proof (cases "truthy (error c)")
  case True
  with assms(2,3) show ?thesis by (auto simp: onChunk_def addNodeMessage_def)
next
  case False
  obtain s1 cur1 tcs1 where t: "onText aid c (s, cur, tcs) = (s1, cur1, tcs1)"
    by (metis prod.exhaust)
  from onText_prefix[OF assms(1,2) t] obtain r1 where r1: "nodeMessages s1 = p @ r1" by blast
  from False assms(3) t have "onToolCalls aid c (s1, cur1, tcs1) = (s', cur', tcs')"
    by (simp add: onChunk_def)
  from onToolCalls_prefix[OF assms(1) r1 this] show ?thesis .
qed

lemma streamLoop_prefix:
  assumes "\<forall>m\<in>set p. msg_id m \<noteq> aid"
  shows "nodeMessages s = p @ r \<Longrightarrow> streamLoop aid cs (s, cur, tcs) = ((s', cur', tcs'), brk)
         \<Longrightarrow> \<exists>r'. nodeMessages s' = p @ r'"
proof (induction cs arbitrary: s cur tcs r)
  case Nil
  then show ?case by auto
next
  case (Cons c cs)
  obtain s1 cur1 tcs1 b1 where st: "onChunk aid c (s, cur, tcs) = ((s1, cur1, tcs1), b1)"
    by (metis prod.exhaust)
  from onChunk_prefix[OF assms Cons.prems(1) st] obtain r1 where r1: "nodeMessages s1 = p @ r1"
    by blast
  show ?case
  proof (cases b1)
    case True
    with Cons.prems(2) st r1 show ?thesis by auto
  next
    case False
    with Cons.prems(2) st have "streamLoop aid cs (s1, cur1, tcs1) = ((s', cur', tcs'), brk)"
      by simp
    from Cons.IH[OF r1 this] show ?thesis .
  qed
qed

lemma onFollowUpChunk_prefix:
  assumes "\<forall>m\<in>set p. msg_id m \<noteq> fid" "nodeMessages s = p @ r"
      and "onFollowUpChunk fid c (s, cur) = ((s', cur'), brk)"
  shows "\<exists>r'. nodeMessages s' = p @ r'"
proof -
  have "map (\<lambda>m. if msg_id m = fid then m\<lparr>msg_text := x\<rparr> else m) (p @ r)
          = p @ map (\<lambda>m. if msg_id m = fid then m\<lparr>msg_text := x\<rparr> else m) r" for x
    using assms(1) by (intro map_fix_prefix) auto
  with assms(2,3) show ?thesis
    unfolding onFollowUpChunk_def
    by (auto simp: Let_def getNodeMessages_def setNodeMessages_def addNodeMessage_def
             split: option.splits if_splits)
qed

lemma followUpLoop_prefix:
  assumes "\<forall>m\<in>set p. msg_id m \<noteq> fid"
  shows "nodeMessages s = p @ r \<Longrightarrow> followUpLoop fid cs (s, cur) = ((s', cur'), brk)
         \<Longrightarrow> \<exists>r'. nodeMessages s' = p @ r'"
proof (induction cs arbitrary: s cur r)
  case Nil
  then show ?case by auto
next
  case (Cons c cs)
  obtain s1 cur1 b1 where st: "onFollowUpChunk fid c (s, cur) = ((s1, cur1), b1)"
    by (metis prod.exhaust)
  from onFollowUpChunk_prefix[OF assms Cons.prems(1) st] obtain r1 where r1: "nodeMessages s1 = p @ r1"
    by blast
  show ?case
  proof (cases b1)
    case True
    with Cons.prems(2) st r1 show ?thesis by auto
  next
    case False
    with Cons.prems(2) st have "followUpLoop fid cs (s1, cur1) = ((s', cur'), brk)"
      by simp
    from Cons.IH[OF r1 this] show ?thesis .
  qed
qed

lemma afterStream_prefix:
  assumes "\<forall>m\<in>set p. msg_id m \<noteq> MsgId (now env AtFollowUp) ''-followup'' \<and> status m = None"
      and "nodeMessages s = p @ r"
  shows "\<exists>r'. nodeMessages (fst (snd (afterStream env agent cfg tcs s))) = p @ r'"
proof (cases "tcs = []")
  case True
  with assms(2) show ?thesis by (simp add: afterStream_def)
next
  case False
  have fx: "map (\<lambda>m. if status m = Some executing_tool then m\<lparr>status := None\<rparr> else m) (p @ x)
          = p @ map (\<lambda>m. if status m = Some executing_tool then m\<lparr>status := None\<rparr> else m) x" for x
    using assms(1) by (intro map_fix_prefix) auto
  have c: "\<exists>r1. nodeMessages (clearExecutingTool (runTools env 0 tcs s)) = p @ r1"
    using assms(2) fx
    by (simp add: clearExecutingTool_def getNodeMessages_def setNodeMessages_def runTools_messages)
  then obtain r1 where r1: "nodeMessages (clearExecutingTool (runTools env 0 tcs s)) = p @ r1" ..
  show ?thesis
  proof (cases "Chat \<in> set (capabilities agent)")
    case nc: False
    with False r1 show ?thesis by (simp add: afterStream_def Let_def)
  next
    case True
    let ?s2 = "(clearExecutingTool (runTools env 0 tcs s))\<lparr>loadingMessage := t_loc env ''analyzing_results''\<rparr>"
    let ?fid = "MsgId (now env AtFollowUp) ''-followup''"
    obtain chunks completion where g: "generateContentStream env (followUpArgs env agent cfg ?s2) = (chunks, completion)"
      by (metis prod.exhaust)
    obtain s3 cur3 b3 where l: "followUpLoop ?fid chunks (?s2, []) = ((s3, cur3), b3)"
      by (metis prod.exhaust)
    have "nodeMessages ?s2 = p @ r1" using r1 by simp
    from followUpLoop_prefix[OF _ this l] assms(1) obtain r3 where "nodeMessages s3 = p @ r3"
      by blast
    with True False g l show ?thesis by (simp add: afterStream_def Let_def)
  qed
qed

lemma tryBody_prefix:
  assumes hp: "historyPolicy env agent messages um s = Inr (s1, cs, h)"
      and p: "\<forall>m\<in>set p. msg_id m \<noteq> MsgId (now env AtAgent) ''-agent''
                        \<and> msg_id m \<noteq> MsgId (now env AtFollowUp) ''-followup'' \<and> status m = None"
      and s1: "nodeMessages s1 = p @ r"
  shows "\<exists>r'. nodeMessages (storeOf (catchFinally env (tryBody env agent cfg messages um s))) = p @ r'"
proof -
  let ?aid = "MsgId (now env AtAgent) ''-agent''"
  obtain chunks completion where g:
    "generateContentStream env (primaryArgs agent cfg messages um) = (chunks, completion)"
    by (metis prod.exhaust)
  obtain s2 cur2 tcs2 b2 where l: "streamLoop ?aid chunks (s1, [], []) = ((s2, cur2, tcs2), b2)"
    by (metis prod.exhaust)
  from p have pa: "\<forall>m\<in>set p. msg_id m \<noteq> ?aid" by blast
  from streamLoop_prefix[OF pa s1 l] obtain r2 where r2: "nodeMessages s2 = p @ r2" by blast
  from p have pf: "\<forall>m\<in>set p. msg_id m \<noteq> MsgId (now env AtFollowUp) ''-followup'' \<and> status m = None"
    by blast
  from afterStream_prefix[OF pf r2, of agent cfg tcs2] obtain r3 where
    r3: "nodeMessages (fst (snd (afterStream env agent cfg tcs2 s2))) = p @ r3" by blast
  show ?thesis
  proof (cases "if b2 then Done else completion")
    case (Throws err)
    then have "tryBody env agent cfg messages um s = (Throws err, s2, cs @ [Stream (primaryArgs agent cfg messages um)])"
      by (simp add: tryBody_def primaryPhase_def hp g l Let_def)
    with r2 show ?thesis
      by (simp add: catchFinally_def storeOf_def setNodeExecuting_def addNodeMessage_def)
  next
    case Done
    then have pp: "primaryPhase env agent cfg messages um s
                 = Inr (s2, tcs2, cs @ [Stream (primaryArgs agent cfg messages um)])"
      by (simp add: primaryPhase_def hp g l Let_def)
    obtain c3 s3 calls3 where a: "afterStream env agent cfg tcs2 s2 = (c3, s3, calls3)"
      by (metis prod.exhaust)
    with r3 have "nodeMessages s3 = p @ r3" by simp
    moreover have "tryBody env agent cfg messages um s
                     = (c3, s3, (cs @ [Stream (primaryArgs agent cfg messages um)]) @ calls3)"
      by (simp add: tryBody_def pp a)
    ultimately show ?thesis
      by (cases c3)
         (simp_all add: catchFinally_def storeOf_def setNodeExecuting_def addNodeMessage_def)
  qed
qed

lemma tryBody_calls:
  assumes hp: "historyPolicy env agent messages um s = Inr (s1, cs, h)"
  shows "take (Suc (length cs)) (callsOf (catchFinally env (tryBody env agent cfg messages um s)))
           = cs @ [Stream (primaryArgs agent cfg messages um)]"
proof -
  have c: "callsOf (catchFinally env r) = callsOf r" for r
    by (cases r) (auto simp: catchFinally_def callsOf_def split: Completion.splits)
  have "\<exists>rest. callsOf (tryBody env agent cfg messages um s)
            = (cs @ [Stream (primaryArgs agent cfg messages um)]) @ rest"
    by (auto simp: tryBody_def primaryPhase_def hp Let_def callsOf_def
             split: prod.splits Completion.splits if_splits)
  then show ?thesis using c by auto
qed

lemma buildUserMessage_fields:
  assumes "buildUserMessage env agent txt file = Inr um"
  shows "msg_id um = MsgId (now env AtUser) []" "status um = None" "sender um = SUser"
        "msg_text um = txt" "\<not> isError um"
  using assms
  by (auto simp: buildUserMessage_def Let_def mkMessage_def split: option.splits sum.splits if_splits)

lemma shouldSummarize_messages:
  "int (length h) \<ge> lim_message lim \<Longrightarrow> shouldSummarize env lim h"
  by (simp add: shouldSummarize_def countMessages_def)

text \<open>
  C2 (amended). With the policy enabled, a message threshold of 5 and 5 prior messages,
  a submission whose summarization provider resolves and whose summarization call returns
  leaves, when the primary dispatch is issued, a session of exactly two messages, the
  summary and the triggering user message. The post-turn session starts with these two
  messages, followed by what the turn itself adds; it is exactly these two when the
  primary stream yields nothing.
\<close>

theorem compaction_at_five:
  assumes "turnStarts env agent s userMessage agentConfig"
      and "historyConfig agent = Some hc" "h_enabled hc"
      and "lim_message (limits hc) = 5" "length (getNodeMessages s) = 5"
      and "find (\<lambda>c. provider c = h_llmProvider hc) (llmConfigs env) = Some sc"
      and "generateContent env (summarizationCall env hc sc (getNodeMessages s @ [userMessage]))
             = Inr summary"
  shows "historyPolicy env agent (getNodeMessages s) userMessage (submitted userMessage s)
           = Inr ((submitted userMessage s)
                    \<lparr>nodeMessages := [summaryMessage env summary, userMessage],
                     loadingMessage := []\<rparr>,
                  [Complete (summarizationCall env hc sc (getNodeMessages s @ [userMessage]))],
                  [summaryMessage env summary, userMessage])
         \<and> take 2 (getNodeMessages (storeOf (handleSendMessage env (Some agent) s)))
             = [summaryMessage env summary, userMessage]
         \<and> (generateContentStream env
               (primaryArgs agent agentConfig (getNodeMessages s) userMessage) = ([], Done)
             \<longrightarrow> getNodeMessages (storeOf (handleSendMessage env (Some agent) s))
                   = [summaryMessage env summary, userMessage])"
proof -
  let ?msgs = "getNodeMessages s"
  let ?p = "[summaryMessage env summary, userMessage]"
  let ?s1 = "(submitted userMessage s)\<lparr>nodeMessages := ?p, loadingMessage := []\<rparr>"
  let ?call = "summarizationCall env hc sc (?msgs @ [userMessage])"
  have due: "compactionDue env agent hc ?msgs userMessage"
    using assms(2-5) by (simp add: compactionDue_def shouldSummarize_messages)
  have hp: "historyPolicy env agent ?msgs userMessage (submitted userMessage s)
              = Inr (?s1, [Complete ?call], ?p)"
    by (simp add: policy_compacts[OF due assms(6)] assms(7))
  from assms(1) have um: "buildUserMessage env agent (trim (userInput s)) (attachedFile s) = Inr userMessage"
    by (simp add: turnStarts_def)
  have stable: "\<forall>m\<in>set ?p. msg_id m \<noteq> MsgId (now env AtAgent) ''-agent''
                        \<and> msg_id m \<noteq> MsgId (now env AtFollowUp) ''-followup'' \<and> status m = None"
    using buildUserMessage_fields(1,2)[OF um] by (simp add: summaryMessage_def mkMessage_def)
  have "nodeMessages ?s1 = ?p @ []" by simp
  from tryBody_prefix[OF hp stable this, of agentConfig] obtain r' where
    "nodeMessages (storeOf (catchFinally env (tryBody env agent agentConfig ?msgs userMessage
                                               (submitted userMessage s)))) = ?p @ r'" by blast
  then have pre: "take 2 (getNodeMessages (storeOf (handleSendMessage env (Some agent) s))) = ?p"
    by (simp add: handle_turn[OF assms(1)] getNodeMessages_def[of "storeOf _"])
  have empty: "getNodeMessages (storeOf (handleSendMessage env (Some agent) s)) = ?p"
    if g: "generateContentStream env (primaryArgs agent agentConfig ?msgs userMessage) = ([], Done)"
  proof -
    have "tryBody env agent agentConfig ?msgs userMessage (submitted userMessage s)
            = (Done, ?s1, [Complete ?call] @ [Stream (primaryArgs agent agentConfig ?msgs userMessage)])"
      by (simp add: tryBody_def primaryPhase_def hp g Let_def afterStream_def)
    then show ?thesis
      by (simp add: handle_turn[OF assms(1)] catchFinally_def storeOf_def setNodeExecuting_def
            getNodeMessages_def[of "_\<lparr>loadingMessage := _\<rparr>"])
  qed
  from hp pre empty show ?thesis by blast
qed

section \<open>Further properties of the handler, and the dispatcher\<close>

lemmas eval_defs =
  Let_def trim_def isWhiteSpace_def truthy_def mkMessage_def
  getNodeMessages_def addNodeMessage_def setNodeMessages_def setNodeExecuting_def isNodeExecuting_def
  countMessages_def textChunk_def toolCallsChunk_def errorChunk_def
  onText_def onToolCalls_def onChunk_def
  buildUserMessage_def submitted_def configErrorMessage_def caughtErrorMessage_def
  catchFinally_def tryBody_def primaryPhase_def primaryArgs_def
  historyPolicy_def shouldSummarize_def summarizationCall_def summaryMessage_def
  afterStream_def followUpArgs_def followUpHistory_def onFollowUpChunk_def
  clearExecutingTool_def toolResultMessage_def toolResultsSummary_def resultText_def
  handleSendMessage_def turnStarts_def compactionDue_def callsOf_def storeOf_def
  demoEnv_def demoAgent_def demoConfig_def demoHistoryConfig_def demoLimits_def demoCall_def
  idleStore_def

lemma trim_hi: "trim ''hi'' = ''hi''" "trim ''sixth'' = ''sixth''"
  by (simp_all add: trim_def isWhiteSpace_def)

lemma starts_full: "turnStarts demoEnv demoAgent fullStore sixth demoConfig"
  by (simp add: eval_defs fullStore_def sixth_def)

lemma starts_quiet: "turnStarts quietEnv demoAgent fullStore sixth demoConfig"
  by (simp add: eval_defs fullStore_def sixth_def quietEnv_def)

lemma handler_ignores_executing:
  assumes "trim (userInput s) \<noteq> [] \<or> attachedFile s \<noteq> None"
  shows "handleSendMessage env (Some agent) (s\<lparr>nodeExecuting := b\<rparr>)
           = handleSendMessage env (Some agent) s"
proof -
  have e: "setNodeExecuting True (s\<lparr>nodeExecuting := b\<rparr>) = setNodeExecuting True s"
    by (simp add: setNodeExecuting_def)
  then have sub: "submitted um (s\<lparr>nodeExecuting := b\<rparr>) = submitted um s" for um
    by (simp add: submitted_def)
  from assms show ?thesis
    by (auto simp: handleSendMessage_def getNodeMessages_def Let_def e sub split: sum.splits)
qed

text \<open>
  C1 (amended). While the node is executing, the textarea and the send button of the
  form are disabled; that is the gate on a second submission. The handler itself does not
  read the executing flag: with content to send it does the same on an executing node as
  on an idle one. It is a no-op (nothing dispatched, store unchanged) when the trimmed
  input is empty and no file is attached, and when the agent is null.
\<close>

theorem submit_guards:
  "(isNodeExecuting s \<longrightarrow> textareaDisabled s \<and> sendDisabled s)
   \<and> (trim (userInput s) = [] \<and> attachedFile s = None \<longrightarrow>
        handleSendMessage env agentOpt s = (Done, s, []))
   \<and> handleSendMessage env None s = (Done, s, [])
   \<and> (trim (userInput s) \<noteq> [] \<or> attachedFile s \<noteq> None \<longrightarrow>
        handleSendMessage env (Some agent) (s\<lparr>nodeExecuting := True\<rparr>)
          = handleSendMessage env (Some agent) (s\<lparr>nodeExecuting := False\<rparr>))"
proof -
  have gate: "isNodeExecuting s \<longrightarrow> textareaDisabled s \<and> sendDisabled s"
    by (simp add: textareaDisabled_def sendDisabled_def)
  have empty: "trim (userInput s) = [] \<and> attachedFile s = None \<longrightarrow>
        handleSendMessage env agentOpt s = (Done, s, [])"
    by (simp add: handleSendMessage_def Let_def)
  have null: "handleSendMessage env None s = (Done, s, [])"
    by (simp add: handleSendMessage_def Let_def)
  have same: "handleSendMessage env (Some agent) (s\<lparr>nodeExecuting := True\<rparr>)
          = handleSendMessage env (Some agent) (s\<lparr>nodeExecuting := False\<rparr>)"
    if "trim (userInput s) \<noteq> [] \<or> attachedFile s \<noteq> None"
    using handler_ignores_executing[OF that, of env agent True]
          handler_ignores_executing[OF that, of env agent False] by simp
  from gate empty null same show ?thesis by blast
qed

theorem submit_guards_witness:
  "isNodeExecuting busyStore \<and> textareaDisabled busyStore \<and> sendDisabled busyStore
   \<and> trim (userInput (idleStore\<lparr>userInput := ''  ''\<rparr>)) = []
   \<and> attachedFile (idleStore\<lparr>userInput := ''  ''\<rparr>) = None
   \<and> handleSendMessage demoEnv (Some demoAgent) (idleStore\<lparr>userInput := ''  ''\<rparr>)
       = (Done, idleStore\<lparr>userInput := ''  ''\<rparr>, [])
   \<and> trim (userInput idleStore) \<noteq> []
   \<and> handleSendMessage demoEnv (Some demoAgent) (idleStore\<lparr>nodeExecuting := True\<rparr>)
       = handleSendMessage demoEnv (Some demoAgent) (idleStore\<lparr>nodeExecuting := False\<rparr>)"
proof -
  have b: "isNodeExecuting busyStore"
    by (simp add: busyStore_def idleStore_def isNodeExecuting_def)
  have e: "trim (userInput (idleStore\<lparr>userInput := ''  ''\<rparr>)) = []"
          "attachedFile (idleStore\<lparr>userInput := ''  ''\<rparr>) = None"
    by (simp_all add: trim_def isWhiteSpace_def idleStore_def)
  have n: "trim (userInput idleStore) \<noteq> []"
    by (simp add: trim_def isWhiteSpace_def idleStore_def)
  from submit_guards[of busyStore demoEnv "Some demoAgent" demoAgent] b
  have 1: "textareaDisabled busyStore \<and> sendDisabled busyStore" by blast
  from submit_guards[of "idleStore\<lparr>userInput := ''  ''\<rparr>" demoEnv "Some demoAgent" demoAgent] e
  have 2: "handleSendMessage demoEnv (Some demoAgent) (idleStore\<lparr>userInput := ''  ''\<rparr>)
       = (Done, idleStore\<lparr>userInput := ''  ''\<rparr>, [])" by blast
  from submit_guards[of idleStore demoEnv "Some demoAgent" demoAgent] n
  have 3: "handleSendMessage demoEnv (Some demoAgent) (idleStore\<lparr>nodeExecuting := True\<rparr>)
       = handleSendMessage demoEnv (Some demoAgent) (idleStore\<lparr>nodeExecuting := False\<rparr>)"
    by blast
  from b e n 1 2 3 show ?thesis by blast
qed

text \<open>
  The handler called on a node that is executing, with the input \<open>hi\<close>: it appends the
  user message and the reply, and issues the primary stream call.
\<close>

theorem submit_while_executing_counterexample:
  "isNodeExecuting busyStore
   \<and> getNodeMessages busyStore = []
   \<and> getNodeMessages (storeOf (handleSendMessage demoEnv (Some demoAgent) busyStore))
       = [hello, mkMessage (MsgId 7 ''-agent'') SAgent ''ok'']
   \<and> callsOf (handleSendMessage demoEnv (Some demoAgent) busyStore)
       = [Stream (primaryArgs demoAgent demoConfig [] hello)]"
  by (simp add: eval_defs busyStore_def hello_def)

text \<open>
  Five prior messages, a message threshold of 5 and a primary stream that answers
  \<open>ok\<close>: the post-turn session has three messages, the summary, the user message and the
  reply.
\<close>

theorem sixth_submission_counterexample:
  "policyEnabled demoAgent \<and> lim_message demoLimits = 5 \<and> length (getNodeMessages fullStore) = 5
   \<and> length (getNodeMessages (storeOf (handleSendMessage demoEnv (Some demoAgent) fullStore))) = 3"
  by (simp add: eval_defs fullStore_def prior_def policyEnabled_def)

lemma take1_of_take2: "take (Suc (Suc 0)) xs = [a, b] \<Longrightarrow> take (Suc 0) xs = [a]"
  by (cases xs) auto

text \<open>
  C3 (amended). With the policy enabled, a non-empty prior history and a summarization
  provider that resolves, if any of the four counters over the prior history plus the new
  user message reaches its threshold, the first dispatcher call of the turn is the
  non-streaming completion call to the policy's provider, model and prompt, with one
  synthetic user message whose text renders the prior history plus the new user message
  as \<open>sender: text\<close> lines; when that call returns, the session is replaced by the
  summary message followed by the triggering user message.
\<close>

theorem compaction_trigger:
  assumes "turnStarts env agent s userMessage agentConfig"
      and "compactionDue env agent hc (getNodeMessages s) userMessage"
      and "find (\<lambda>c. provider c = h_llmProvider hc) (llmConfigs env) = Some sc"
  shows "take 1 (callsOf (handleSendMessage env (Some agent) s))
           = [Complete (summarizationCall env hc sc (getNodeMessages s @ [userMessage]))]
       \<and> ca_provider (summarizationCall env hc sc (getNodeMessages s @ [userMessage])) = h_llmProvider hc
       \<and> ca_model (summarizationCall env hc sc (getNodeMessages s @ [userMessage])) = h_model hc
       \<and> ca_systemInstruction (summarizationCall env hc sc (getNodeMessages s @ [userMessage]))
           = h_systemPrompt hc
       \<and> map sender (ca_history (summarizationCall env hc sc (getNodeMessages s @ [userMessage])))
           = [SUser]
       \<and> map msg_text (ca_history (summarizationCall env hc sc (getNodeMessages s @ [userMessage])))
           = [t_loc env ''conversation_to_summarize'' @ '':'' @ [CHR 0x0A, CHR 0x0A]
              @ join [CHR 0x0A] (map (\<lambda>m. senderName (sender m) @ '': '' @ msg_text m)
                                   (getNodeMessages s @ [userMessage]))]
       \<and> (\<forall>summary.
             generateContent env (summarizationCall env hc sc (getNodeMessages s @ [userMessage]))
               = Inr summary \<longrightarrow>
             historyPolicy env agent (getNodeMessages s) userMessage (submitted userMessage s)
               = Inr ((submitted userMessage s)
                        \<lparr>nodeMessages := [summaryMessage env summary, userMessage],
                         loadingMessage := []\<rparr>,
                      [Complete (summarizationCall env hc sc (getNodeMessages s @ [userMessage]))],
                      [summaryMessage env summary, userMessage]))"
proof -
  let ?call = "summarizationCall env hc sc (getNodeMessages s @ [userMessage])"
  let ?hp = "historyPolicy env agent (getNodeMessages s) userMessage (submitted userMessage s)"
  note pc = policy_compacts[OF assms(2,3), of "submitted userMessage s"]
  have cf: "callsOf (catchFinally env r) = callsOf r" for r
    by (cases r) (auto simp: catchFinally_def callsOf_def split: Completion.splits)
  have first: "take 1 (callsOf (handleSendMessage env (Some agent) s)) = [Complete ?call]"
  proof (cases "generateContent env ?call")
    case (Inl err)
    then have "?hp = Inl (err, (submitted userMessage s)
                 \<lparr>loadingMessage := t_loc env ''agentNode_history_summarizing''\<rparr>, [Complete ?call])"
      by (simp add: pc)
    then have "callsOf (tryBody env agent agentConfig (getNodeMessages s) userMessage
                 (submitted userMessage s)) = [Complete ?call]"
      by (simp add: tryBody_def primaryPhase_def callsOf_def)
    then show ?thesis by (simp add: handle_turn[OF assms(1)] cf)
  next
    case (Inr summary)
    then have "?hp = Inr ((submitted userMessage s)
                        \<lparr>nodeMessages := [summaryMessage env summary, userMessage],
                         loadingMessage := []\<rparr>, [Complete ?call],
                      [summaryMessage env summary, userMessage])"
      by (simp add: pc)
    from tryBody_calls[OF this, of agentConfig]
    have "take (Suc (Suc 0)) (callsOf (catchFinally env (tryBody env agent agentConfig
            (getNodeMessages s) userMessage (submitted userMessage s))))
          = [Complete ?call, Stream (primaryArgs agent agentConfig (getNodeMessages s) userMessage)]"
      by simp
    then have "take (Suc 0) (callsOf (catchFinally env (tryBody env agent agentConfig
            (getNodeMessages s) userMessage (submitted userMessage s)))) = [Complete ?call]"
      by (rule take1_of_take2)
    then show ?thesis by (simp add: handle_turn[OF assms(1)])
  qed
  have prov: "provider sc = h_llmProvider hc"
    using assms(3) by (auto simp: find_Some_iff)
  have "\<forall>summary. generateContent env ?call = Inr summary \<longrightarrow>
          ?hp = Inr ((submitted userMessage s)
                        \<lparr>nodeMessages := [summaryMessage env summary, userMessage],
                         loadingMessage := []\<rparr>, [Complete ?call],
                      [summaryMessage env summary, userMessage])"
    by (simp add: pc)
  with first prov show ?thesis
    by (simp add: summarizationCall_def summarizationPrompt_def mkMessage_def)
qed

text \<open>
  A first submission (empty prior history) with the policy enabled and a message
  threshold of 1: the message counter reaches its threshold, and no summarization call is
  issued; the session is not replaced.
\<close>

theorem compaction_on_first_message_counterexample:
  "policyEnabled eagerAgent
   \<and> shouldSummarize demoEnv (demoLimits\<lparr>lim_message := 1\<rparr>) (getNodeMessages idleStore @ [hello])
   \<and> callsOf (handleSendMessage demoEnv (Some eagerAgent) idleStore)
       = [Stream (primaryArgs eagerAgent demoConfig [] hello)]
   \<and> getNodeMessages (storeOf (handleSendMessage demoEnv (Some eagerAgent) idleStore))
       = [hello, mkMessage (MsgId 7 ''-agent'') SAgent ''ok'']"
  by (simp add: eval_defs eagerAgent_def policyEnabled_def hello_def)

lemma due_full: "compactionDue demoEnv demoAgent demoHistoryConfig (getNodeMessages fullStore) sixth"
  by (simp add: eval_defs fullStore_def)

lemma found_full:
  "find (\<lambda>c. provider c = h_llmProvider demoHistoryConfig) (llmConfigs demoEnv) = Some demoConfig"
  by (simp add: eval_defs)

theorem compaction_trigger_witness:
  "turnStarts demoEnv demoAgent fullStore sixth demoConfig
   \<and> compactionDue demoEnv demoAgent demoHistoryConfig (getNodeMessages fullStore) sixth
   \<and> find (\<lambda>c. provider c = h_llmProvider demoHistoryConfig) (llmConfigs demoEnv) = Some demoConfig
   \<and> take 1 (callsOf (handleSendMessage demoEnv (Some demoAgent) fullStore))
       = [Complete (summarizationCall demoEnv demoHistoryConfig demoConfig
                      (getNodeMessages fullStore @ [sixth]))]
   \<and> generateContent demoEnv (summarizationCall demoEnv demoHistoryConfig demoConfig
                                 (getNodeMessages fullStore @ [sixth])) = Inr ''S''
   \<and> historyPolicy demoEnv demoAgent (getNodeMessages fullStore) sixth (submitted sixth fullStore)
       = Inr ((submitted sixth fullStore)
                \<lparr>nodeMessages := [summaryMessage demoEnv ''S'', sixth], loadingMessage := []\<rparr>,
              [Complete (summarizationCall demoEnv demoHistoryConfig demoConfig
                           (getNodeMessages fullStore @ [sixth]))],
              [summaryMessage demoEnv ''S'', sixth])"
proof -
  note T = compaction_trigger[OF starts_full due_full found_full]
  have g: "generateContent demoEnv (summarizationCall demoEnv demoHistoryConfig demoConfig
                                 (getNodeMessages fullStore @ [sixth])) = Inr ''S''"
    by (simp add: demoEnv_def)
  from T have first: "take 1 (callsOf (handleSendMessage demoEnv (Some demoAgent) fullStore))
       = [Complete (summarizationCall demoEnv demoHistoryConfig demoConfig
                      (getNodeMessages fullStore @ [sixth]))]" by blast
  from T g have "historyPolicy demoEnv demoAgent (getNodeMessages fullStore) sixth (submitted sixth fullStore)
       = Inr ((submitted sixth fullStore)
                \<lparr>nodeMessages := [summaryMessage demoEnv ''S'', sixth], loadingMessage := []\<rparr>,
              [Complete (summarizationCall demoEnv demoHistoryConfig demoConfig
                           (getNodeMessages fullStore @ [sixth]))],
              [summaryMessage demoEnv ''S'', sixth])" by blast
  with starts_full due_full found_full first g show ?thesis by blast
qed

theorem compaction_at_five_witness:
  "turnStarts quietEnv demoAgent fullStore sixth demoConfig
   \<and> historyConfig demoAgent = Some demoHistoryConfig \<and> h_enabled demoHistoryConfig
   \<and> lim_message (limits demoHistoryConfig) = 5 \<and> length (getNodeMessages fullStore) = 5
   \<and> find (\<lambda>c. provider c = h_llmProvider demoHistoryConfig) (llmConfigs quietEnv) = Some demoConfig
   \<and> generateContent quietEnv (summarizationCall quietEnv demoHistoryConfig demoConfig
                                  (getNodeMessages fullStore @ [sixth])) = Inr ''S''
   \<and> generateContentStream quietEnv (primaryArgs demoAgent demoConfig (getNodeMessages fullStore) sixth)
       = ([], Done)
   \<and> take 2 (getNodeMessages (storeOf (handleSendMessage quietEnv (Some demoAgent) fullStore)))
       = [summaryMessage quietEnv ''S'', sixth]
   \<and> getNodeMessages (storeOf (handleSendMessage quietEnv (Some demoAgent) fullStore))
       = [summaryMessage quietEnv ''S'', sixth]"
proof -
  have a: "historyConfig demoAgent = Some demoHistoryConfig" "h_enabled demoHistoryConfig"
          "lim_message (limits demoHistoryConfig) = 5" "length (getNodeMessages fullStore) = 5"
    by (simp_all add: eval_defs fullStore_def)
  have f: "find (\<lambda>c. provider c = h_llmProvider demoHistoryConfig) (llmConfigs quietEnv) = Some demoConfig"
    by (simp add: eval_defs quietEnv_def)
  have g: "generateContent quietEnv (summarizationCall quietEnv demoHistoryConfig demoConfig
                                  (getNodeMessages fullStore @ [sixth])) = Inr ''S''"
    by (simp add: quietEnv_def demoEnv_def)
  have q: "generateContentStream quietEnv (primaryArgs demoAgent demoConfig (getNodeMessages fullStore) sixth)
       = ([], Done)"
    by (simp add: quietEnv_def)
  note T = compaction_at_five[OF starts_quiet a f g]
  from T q have "take 2 (getNodeMessages (storeOf (handleSendMessage quietEnv (Some demoAgent) fullStore)))
       = [summaryMessage quietEnv ''S'', sixth]"
    "getNodeMessages (storeOf (handleSendMessage quietEnv (Some demoAgent) fullStore))
       = [summaryMessage quietEnv ''S'', sixth]" by blast+
  with starts_quiet a f g q show ?thesis by blast
qed

theorem summarization_unavailable_is_fatal_witness:
  "turnStarts demoEnv strandedAgent fullStore sixth demoConfig
   \<and> compactionDue demoEnv strandedAgent (demoHistoryConfig\<lparr>h_llmProvider := OpenAI\<rparr>)
        (getNodeMessages fullStore) sixth
   \<and> find (\<lambda>c. provider c = h_llmProvider (demoHistoryConfig\<lparr>h_llmProvider := OpenAI\<rparr>))
        (llmConfigs demoEnv) = None
   \<and> callsOf (handleSendMessage demoEnv (Some strandedAgent) fullStore) = []
   \<and> \<not> isNodeExecuting (storeOf (handleSendMessage demoEnv (Some strandedAgent) fullStore))
   \<and> getNodeMessages (storeOf (handleSendMessage demoEnv (Some strandedAgent) fullStore))
       = getNodeMessages fullStore @
           [sixth, caughtErrorMessage demoEnv ''Summarization LLM provider not configured.'']"
proof -
  have t: "turnStarts demoEnv strandedAgent fullStore sixth demoConfig"
    by (simp add: eval_defs fullStore_def sixth_def strandedAgent_def)
  have d: "compactionDue demoEnv strandedAgent (demoHistoryConfig\<lparr>h_llmProvider := OpenAI\<rparr>)
        (getNodeMessages fullStore) sixth"
    by (simp add: eval_defs fullStore_def strandedAgent_def)
  have n: "find (\<lambda>c. provider c = h_llmProvider (demoHistoryConfig\<lparr>h_llmProvider := OpenAI\<rparr>))
        (llmConfigs demoEnv) = None"
    by (simp add: eval_defs)
  have p: "providerName demoEnv (h_llmProvider (demoHistoryConfig\<lparr>h_llmProvider := OpenAI\<rparr>)) = ''provider''"
    by (simp add: demoEnv_def)
  note T = summarization_unavailable_is_fatal[OF t d n, THEN conjunct1]
  from T p have "callsOf (handleSendMessage demoEnv (Some strandedAgent) fullStore) = []"
    "\<not> isNodeExecuting (storeOf (handleSendMessage demoEnv (Some strandedAgent) fullStore))"
    "getNodeMessages (storeOf (handleSendMessage demoEnv (Some strandedAgent) fullStore))
       = getNodeMessages fullStore @
           [sixth, caughtErrorMessage demoEnv ''Summarization LLM provider not configured.'']"
    by (simp_all add: callsOf_def storeOf_def isNodeExecuting_def getNodeMessages_def)
  with t d n show ?thesis by blast
qed

text \<open>
  A first submission (empty prior history) with the policy enabled, a message threshold
  of 1 and a summarization provider that is not configured: the message counter reaches
  its threshold, and the turn goes on to the primary stream call and the reply; no error
  message is appended.
\<close>

theorem unresolved_on_first_message_counterexample:
  "policyEnabled firstStrandedAgent
   \<and> shouldSummarize demoEnv (demoLimits\<lparr>lim_message := 1\<rparr>) (getNodeMessages idleStore @ [hello])
   \<and> find (\<lambda>c. provider c = OpenAI) (llmConfigs demoEnv) = None
   \<and> callsOf (handleSendMessage demoEnv (Some firstStrandedAgent) idleStore)
       = [Stream (primaryArgs firstStrandedAgent demoConfig [] hello)]
   \<and> getNodeMessages (storeOf (handleSendMessage demoEnv (Some firstStrandedAgent) idleStore))
       = [hello, mkMessage (MsgId 7 ''-agent'') SAgent ''ok'']"
  by (simp add: eval_defs firstStrandedAgent_def policyEnabled_def hello_def)

theorem follow_up_gating_witness:
  "turnStarts toolEnv noChatAgent idleStore hello demoConfig
   \<and> primaryPhase toolEnv noChatAgent demoConfig (getNodeMessages idleStore) hello
        (submitted hello idleStore)
       = Inr (submitted hello idleStore, [demoCall ''c1'' ''get_weather''],
              [Stream (primaryArgs noChatAgent demoConfig [] hello)])
   \<and> [demoCall ''c1'' ''get_weather''] \<noteq> []
   \<and> Chat \<notin> set (capabilities noChatAgent)
   \<and> callsOf (handleSendMessage toolEnv (Some noChatAgent) idleStore)
       = [Stream (primaryArgs noChatAgent demoConfig [] hello)]
   \<and> \<not> isNodeExecuting (storeOf (handleSendMessage toolEnv (Some noChatAgent) idleStore))
   \<and> getNodeMessages (storeOf (handleSendMessage toolEnv (Some noChatAgent) idleStore))
       = getNodeMessages (clearExecutingTool (submitted hello idleStore))
         @ toolResultMessages toolEnv [demoCall ''c1'' ''get_weather'']"
proof -
  have t: "turnStarts toolEnv noChatAgent idleStore hello demoConfig"
    by (simp add: eval_defs toolEnv_def noChatAgent_def hello_def)
  have p: "primaryPhase toolEnv noChatAgent demoConfig (getNodeMessages idleStore) hello
        (submitted hello idleStore)
       = Inr (submitted hello idleStore, [demoCall ''c1'' ''get_weather''],
              [Stream (primaryArgs noChatAgent demoConfig [] hello)])"
    by (simp add: eval_defs toolEnv_def noChatAgent_def hello_def)
  have c: "[demoCall ''c1'' ''get_weather''] \<noteq> []" "Chat \<notin> set (capabilities noChatAgent)"
    by (simp_all add: noChatAgent_def demoAgent_def)
  note T = follow_up_gating[OF t p c(1)]
  from T c(2) have "callsOf (handleSendMessage toolEnv (Some noChatAgent) idleStore)
       = [Stream (primaryArgs noChatAgent demoConfig [] hello)]"
    by (simp add: callsOf_def)
  moreover from T c(2) have "\<not> isNodeExecuting (storeOf (handleSendMessage toolEnv (Some noChatAgent) idleStore))"
    "getNodeMessages (storeOf (handleSendMessage toolEnv (Some noChatAgent) idleStore))
       = getNodeMessages (clearExecutingTool (submitted hello idleStore))
         @ toolResultMessages toolEnv [demoCall ''c1'' ''get_weather'']"
    unfolding storeOf_def by blast+
  ultimately show ?thesis using t p c by blast
qed

text \<open>
  C4 (amended). The primary stream call follows the policy's calls and is issued with
  the session history as read at submission time plus the new user message, whatever
  per-call history the policy computed. That per-call history is the user message alone
  when the policy is disabled, and then equals the history passed only for an empty prior
  history; after compaction it is the summary followed by the user message, and then
  equals the history passed only when the prior history is that one summary message.
\<close>

theorem primary_dispatch_history:
  assumes "turnStarts env agent s userMessage agentConfig"
      and "historyPolicy env agent (getNodeMessages s) userMessage (submitted userMessage s)
             = Inr (s1, cs, conversationHistoryForAPI)"
  shows "take (Suc (length cs)) (callsOf (handleSendMessage env (Some agent) s))
           = cs @ [Stream (primaryArgs agent agentConfig (getNodeMessages s) userMessage)]
       \<and> sa_history (primaryArgs agent agentConfig (getNodeMessages s) userMessage)
           = getNodeMessages s @ [userMessage]
       \<and> (\<not> policyEnabled agent \<longrightarrow>
            conversationHistoryForAPI = [userMessage]
            \<and> (conversationHistoryForAPI = getNodeMessages s @ [userMessage]
                 \<longleftrightarrow> getNodeMessages s = []))
       \<and> (cs \<noteq> [] \<longrightarrow>
            length conversationHistoryForAPI = 2 \<and> last conversationHistoryForAPI = userMessage
            \<and> sender (hd conversationHistoryForAPI) = SAgent
            \<and> (conversationHistoryForAPI = getNodeMessages s @ [userMessage]
                 \<longleftrightarrow> getNodeMessages s = [hd conversationHistoryForAPI]))"
proof -
  have 1: "take (Suc (length cs)) (callsOf (handleSendMessage env (Some agent) s))
           = cs @ [Stream (primaryArgs agent agentConfig (getNodeMessages s) userMessage)]"
    using tryBody_calls[OF assms(2), of agentConfig] by (simp add: handle_turn[OF assms(1)])
  have 2: "sa_history (primaryArgs agent agentConfig (getNodeMessages s) userMessage)
           = getNodeMessages s @ [userMessage]"
    by (simp add: primaryArgs_def)
  have 3: "conversationHistoryForAPI = [userMessage]" if "\<not> policyEnabled agent"
    using that assms(2)
    by (auto simp: policyEnabled_def historyPolicy_def Let_def split: option.splits)
  have 4: "\<exists>summary. conversationHistoryForAPI = [summaryMessage env summary, userMessage]"
    if "cs \<noteq> []"
    using that assms(2)
    by (auto simp: historyPolicy_def Let_def split: option.splits if_splits sum.splits)
  have 5: "length conversationHistoryForAPI = 2 \<and> last conversationHistoryForAPI = userMessage
            \<and> sender (hd conversationHistoryForAPI) = SAgent
            \<and> (conversationHistoryForAPI = getNodeMessages s @ [userMessage]
                 \<longleftrightarrow> getNodeMessages s = [hd conversationHistoryForAPI])" if "cs \<noteq> []"
  proof -
    from 4[OF that] obtain summary where
      c: "conversationHistoryForAPI = [summaryMessage env summary, userMessage]" by blast
    have "([x, y] = ms @ [y]) = (ms = [x])" for x y :: ChatMessage and ms
      by (metis append_Cons append_Nil append_same_eq)
    with c show ?thesis by (simp add: summaryMessage_def mkMessage_def)
  qed
  from 1 2 3 5 show ?thesis by auto
qed

text \<open>
  A first submission with the policy disabled: the per-call history the policy computes,
  the user message alone, is the history passed to the primary stream call.
\<close>

theorem primary_dispatch_history_counterexample:
  "\<not> policyEnabled plainAgent
   \<and> historyPolicy demoEnv plainAgent (getNodeMessages idleStore) hello (submitted hello idleStore)
       = Inr (submitted hello idleStore, [], [hello])
   \<and> callsOf (handleSendMessage demoEnv (Some plainAgent) idleStore)
       = [Stream (primaryArgs plainAgent demoConfig (getNodeMessages idleStore) hello)]
   \<and> sa_history (primaryArgs plainAgent demoConfig (getNodeMessages idleStore) hello) = [hello]"
  by (simp add: eval_defs plainAgent_def policyEnabled_def hello_def)

theorem primary_dispatch_history_witness:
  "turnStarts demoEnv demoAgent fullStore sixth demoConfig
   \<and> historyPolicy demoEnv demoAgent (getNodeMessages fullStore) sixth (submitted sixth fullStore)
       = Inr ((submitted sixth fullStore)
                \<lparr>nodeMessages := [summaryMessage demoEnv ''S'', sixth], loadingMessage := []\<rparr>,
              [Complete (summarizationCall demoEnv demoHistoryConfig demoConfig
                           (getNodeMessages fullStore @ [sixth]))],
              [summaryMessage demoEnv ''S'', sixth])
   \<and> take 2 (callsOf (handleSendMessage demoEnv (Some demoAgent) fullStore))
       = [Complete (summarizationCall demoEnv demoHistoryConfig demoConfig
                      (getNodeMessages fullStore @ [sixth])),
          Stream (primaryArgs demoAgent demoConfig (getNodeMessages fullStore) sixth)]
   \<and> sa_history (primaryArgs demoAgent demoConfig (getNodeMessages fullStore) sixth)
       = getNodeMessages fullStore @ [sixth]
   \<and> [summaryMessage demoEnv ''S'', sixth] \<noteq> getNodeMessages fullStore @ [sixth]
   \<and> turnStarts demoEnv plainAgent fullStore sixth demoConfig
   \<and> \<not> policyEnabled plainAgent
   \<and> historyPolicy demoEnv plainAgent (getNodeMessages fullStore) sixth (submitted sixth fullStore)
       = Inr (submitted sixth fullStore, [], [sixth])
   \<and> [sixth] \<noteq> getNodeMessages fullStore @ [sixth]"
proof -
  have hp: "historyPolicy demoEnv demoAgent (getNodeMessages fullStore) sixth (submitted sixth fullStore)
       = Inr ((submitted sixth fullStore)
                \<lparr>nodeMessages := [summaryMessage demoEnv ''S'', sixth], loadingMessage := []\<rparr>,
              [Complete (summarizationCall demoEnv demoHistoryConfig demoConfig
                           (getNodeMessages fullStore @ [sixth]))],
              [summaryMessage demoEnv ''S'', sixth])"
    using policy_compacts[OF due_full found_full, of "submitted sixth fullStore"]
    by (simp add: demoEnv_def)
  note T = primary_dispatch_history[OF starts_full hp]
  from T have a: "take 2 (callsOf (handleSendMessage demoEnv (Some demoAgent) fullStore))
       = [Complete (summarizationCall demoEnv demoHistoryConfig demoConfig
                      (getNodeMessages fullStore @ [sixth])),
          Stream (primaryArgs demoAgent demoConfig (getNodeMessages fullStore) sixth)]"
    by (simp add: numeral_2_eq_2)
  from T have b: "sa_history (primaryArgs demoAgent demoConfig (getNodeMessages fullStore) sixth)
       = getNodeMessages fullStore @ [sixth]" by blast
  have five: "length (getNodeMessages fullStore) = 5"
    by (simp add: fullStore_def getNodeMessages_def)
  then have ne: "getNodeMessages fullStore \<noteq> [hd [summaryMessage demoEnv ''S'', sixth]]"
                "getNodeMessages fullStore \<noteq> []"
    by auto
  from T ne(1) have c: "[summaryMessage demoEnv ''S'', sixth] \<noteq> getNodeMessages fullStore @ [sixth]"
    by blast
  have tp: "turnStarts demoEnv plainAgent fullStore sixth demoConfig"
    by (simp add: eval_defs fullStore_def sixth_def plainAgent_def)
  have np: "\<not> policyEnabled plainAgent" by (simp add: policyEnabled_def plainAgent_def)
  have hp2: "historyPolicy demoEnv plainAgent (getNodeMessages fullStore) sixth (submitted sixth fullStore)
       = Inr (submitted sixth fullStore, [], [sixth])"
    by (simp add: historyPolicy_def plainAgent_def)
  from primary_dispatch_history[OF tp hp2] np ne(2)
  have d: "[sixth] \<noteq> getNodeMessages fullStore @ [sixth]" by blast
  from starts_full hp a b c tp np hp2 d show ?thesis by blast
qed

lemma geminiLoop_done: "snd (geminiLoop g cs completion) = Done"
  by (induction g cs completion rule: geminiLoop.induct) (auto split: prod.splits)

lemma geminiLoop_errors_last:
  "list_all (\<lambda>c. error c = None) (butlast (fst (geminiLoop g cs completion)))"
  by (induction g cs completion rule: geminiLoop.induct)
     (auto simp: responseChunk_def split: prod.splits)

lemma geminiLoop_failure:
  "\<forall>c\<in>set cs. \<not> hasFunctionCalls c \<Longrightarrow>
   geminiLoop g cs (Throws e) = (map responseChunk cs @ [errorChunk (geminiError e)], Done)"
  by (induction cs) auto

text \<open>
  \<^verbatim>\<open>formatHistory\<close> runs before the try block of the Gemini adapter: an exception of
  \<^verbatim>\<open>JSON.parse\<close> there leaves the generator.
\<close>

lemma gemini_throws_before_try:
  "formatHistory (parse g) (b_history a) = Inl e \<Longrightarrow>
   geminiService_generateContentStream g a = ([], Throws e)"
  by (simp add: geminiService_generateContentStream_def)

text \<open>
  C10 (amended). For the Gemini provider, once the history has been formatted without a
  \<^verbatim>\<open>JSON.parse\<close> failure, the dispatcher's streaming entry point never throws: its
  generator returns, only its last element can carry an error, and a failure raised by the
  SDK's streaming call (at the first await or while its response is iterated) is
  surfaced as one last element carrying the error string, after the elements already
  delivered.
\<close>

theorem gemini_stream_errors_are_terminal:
  assumes "sa_provider a = Gemini"
      and "formatHistory (parse g) (Some (sa_history a)) = Inr formatted"
  shows "snd (llmService_generateContentStream g others endpoint a) = Done
       \<and> list_all (\<lambda>c. error c = None)
           (butlast (fst (llmService_generateContentStream g others endpoint a)))
       \<and> (\<forall>chunks e.
            sdkStream g \<lparr>req_model = sa_model a, contents = formatted,
                          config = geminiConfig (sa_systemInstruction a) (sa_tools a)
                                     (sa_outputConfig a)\<rparr> = (chunks, Throws e)
            \<and> (\<forall>c\<in>set chunks. \<not> hasFunctionCalls c)
            \<longrightarrow> fst (llmService_generateContentStream g others endpoint a)
                  = map responseChunk chunks @ [errorChunk (geminiError e)])"
proof -
  let ?req = "\<lparr>req_model = sa_model a, contents = formatted,
               config = geminiConfig (sa_systemInstruction a) (sa_tools a) (sa_outputConfig a)\<rparr>"
  have d: "llmService_generateContentStream g others endpoint a
             = geminiLoop g (fst (sdkStream g ?req)) (snd (sdkStream g ?req))"
    using assms
    by (simp add: llmService_generateContentStream_def getServiceProvider_def geminiService_def
          geminiService_generateContentStream_def Let_def split: prod.splits)
  show ?thesis
    by (auto simp: d geminiLoop_done geminiLoop_errors_last geminiLoop_failure)
qed

text \<open>
  The dispatcher called for the provider \<open>ArcLLM\<close>, whose module has no
  \<^verbatim>\<open>generateContentStream\<close>: its generator throws and yields nothing.
\<close>

theorem dispatcher_throws_counterexample:
  "llmService_generateContentStream stubGemini (\<lambda>p. geminiService stubGemini) None
     (demoStreamArgs ArcLLM) = ([], Throws notAFunction)"
  by (simp add: llmService_generateContentStream_def getServiceProvider_def arcLLMService_def
        demoStreamArgs_def Let_def)

theorem gemini_stream_errors_are_terminal_witness:
  "sa_provider (demoStreamArgs Gemini) = Gemini
   \<and> formatHistory (parse stubGemini) (Some (sa_history (demoStreamArgs Gemini)))
       = Inr [\<lparr>role = ''user'', parts = [TextPart ''hi'']\<rparr>]
   \<and> sdkStream stubGemini
        \<lparr>req_model = sa_model (demoStreamArgs Gemini),
          contents = [\<lparr>role = ''user'', parts = [TextPart ''hi'']\<rparr>],
          config = geminiConfig (sa_systemInstruction (demoStreamArgs Gemini))
                     (sa_tools (demoStreamArgs Gemini)) (sa_outputConfig (demoStreamArgs Gemini))\<rparr>
       = ([\<lparr>functionCalls = None, chunk_text = Some ''par''\<rparr>], Throws ''network down'')
   \<and> \<not> hasFunctionCalls \<lparr>functionCalls = None, chunk_text = Some ''par''\<rparr>
   \<and> llmService_generateContentStream stubGemini (\<lambda>p. geminiService stubGemini) None
        (demoStreamArgs Gemini)
       = ([textChunk ''par'', errorChunk (geminiError ''network down'')], Done)"
proof -
  have p: "sa_provider (demoStreamArgs Gemini) = Gemini" by (simp add: demoStreamArgs_def)
  have f: "formatHistory (parse stubGemini) (Some (sa_history (demoStreamArgs Gemini)))
       = Inr [\<lparr>role = ''user'', parts = [TextPart ''hi'']\<rparr>]"
    by (simp add: formatHistory_def formatMessage_def demoStreamArgs_def hello_def mkMessage_def
          truthy_def stubGemini_def)
  have s: "sdkStream stubGemini
        \<lparr>req_model = sa_model (demoStreamArgs Gemini),
          contents = [\<lparr>role = ''user'', parts = [TextPart ''hi'']\<rparr>],
          config = geminiConfig (sa_systemInstruction (demoStreamArgs Gemini))
                     (sa_tools (demoStreamArgs Gemini)) (sa_outputConfig (demoStreamArgs Gemini))\<rparr>
       = ([\<lparr>functionCalls = None, chunk_text = Some ''par''\<rparr>], Throws ''network down'')"
    by (simp add: stubGemini_def)
  have h: "\<not> hasFunctionCalls \<lparr>functionCalls = None, chunk_text = Some ''par''\<rparr>"
    by (simp add: hasFunctionCalls_def)
  note T = gemini_stream_errors_are_terminal[OF p f, of "\<lambda>p. geminiService stubGemini" None]
  from T have fin: "snd (llmService_generateContentStream stubGemini (\<lambda>p. geminiService stubGemini) None
        (demoStreamArgs Gemini)) = Done" by blast
  have hb: "\<forall>c\<in>set [\<lparr>functionCalls = None, chunk_text = Some ''par''\<rparr>]. \<not> hasFunctionCalls c"
    using h by simp
  note out = T[THEN conjunct2, THEN conjunct2, THEN spec, THEN spec, THEN mp, OF conjI, OF s hb]
  have "llmService_generateContentStream stubGemini (\<lambda>p. geminiService stubGemini) None
        (demoStreamArgs Gemini)
       = ([textChunk ''par'', errorChunk (geminiError ''network down'')], Done)"
    using fin out by (simp add: prod_eq_iff responseChunk_def textChunk_def)
  with p f s h show ?thesis by blast
qed

section \<open>Tool results in the session of a turn\<close>

lemma onFollowUpChunk_shape:
  assumes "onFollowUpChunk fid c (s, cur) = ((s', cur'), brk)"
  shows "nodeMessages s' = nodeMessages s
         \<or> (\<exists>y. nodeMessages s' = nodeMessages s @ [y])
         \<or> (\<exists>x. nodeMessages s' =
                  map (\<lambda>m. if msg_id m = fid then m\<lparr>msg_text := x\<rparr> else m) (nodeMessages s))"
  using assms unfolding onFollowUpChunk_def
  by (auto simp: Let_def getNodeMessages_def setNodeMessages_def addNodeMessage_def
           split: option.splits if_splits)

lemma onFollowUpChunk_segment:
  assumes "\<forall>m\<in>set p. msg_id m \<noteq> fid" "nodeMessages s = a @ p @ r"
      and "onFollowUpChunk fid c (s, cur) = ((s', cur'), brk)"
  shows "\<exists>a' r'. length a' = length a \<and> nodeMessages s' = a' @ p @ r'"
proof -
  from onFollowUpChunk_shape[OF assms(3)]
  consider (same) "nodeMessages s' = nodeMessages s"
    | (added) y where "nodeMessages s' = nodeMessages s @ [y]"
    | (mapped) x where "nodeMessages s' =
          map (\<lambda>m. if msg_id m = fid then m\<lparr>msg_text := x\<rparr> else m) (nodeMessages s)"
    by blast
  then show ?thesis
  proof cases
    case same
    with assms(2) have "length a = length a \<and> nodeMessages s' = a @ p @ r" by simp
    then show ?thesis by - (rule exI[of _ a], rule exI[of _ r], assumption)
  next
    case added
    with assms(2) have "length a = length a \<and> nodeMessages s' = a @ p @ (r @ [y])" by simp
    then show ?thesis by - (rule exI[of _ a], rule exI[of _ "r @ [y]"], assumption)
  next
    case mapped
    let ?f = "\<lambda>m. if msg_id m = fid then m\<lparr>msg_text := x\<rparr> else m"
    have "map ?f p = p" using assms(1) by (simp add: map_idI)
    with mapped assms(2) have "length (map ?f a) = length a
        \<and> nodeMessages s' = map ?f a @ p @ map ?f r" by simp
    then show ?thesis by - (rule exI[of _ "map ?f a"], rule exI[of _ "map ?f r"], assumption)
  qed
qed

lemma followUpLoop_segment:
  assumes "\<forall>m\<in>set p. msg_id m \<noteq> fid"
  shows "nodeMessages s = a @ p @ r \<Longrightarrow> followUpLoop fid cs (s, cur) = ((s', cur'), brk)
         \<Longrightarrow> \<exists>a' r'. length a' = length a \<and> nodeMessages s' = a' @ p @ r'"
proof (induction cs arbitrary: s cur a r)
  case Nil
  then show ?case by auto
next
  case (Cons c cs)
  obtain s1 cur1 b1 where st: "onFollowUpChunk fid c (s, cur) = ((s1, cur1), b1)"
    by (metis prod.exhaust)
  from onFollowUpChunk_segment[OF assms Cons.prems(1) st] obtain a1 r1 where
    r1: "length a1 = length a" "nodeMessages s1 = a1 @ p @ r1" by blast
  show ?case
  proof (cases b1)
    case True
    with Cons.prems(2) st r1 show ?thesis by auto
  next
    case False
    with Cons.prems(2) st have "followUpLoop fid cs (s1, cur1) = ((s', cur'), brk)"
      by simp
    from Cons.IH[OF r1(2) this] r1(1) show ?thesis by auto
  qed
qed

lemma toolResult_id: "\<forall>m\<in>set (toolResultMessages env tcs). msg_id m \<noteq> MsgId t ''-followup''"
  by (auto simp: toolResultMessages_def toolResultMessage_def mkMessage_def split: sum.splits)

lemma clear_length: "length (getNodeMessages (clearExecutingTool s)) = length (getNodeMessages s)"
  by (simp add: clearExecutingTool_def getNodeMessages_def setNodeMessages_def)

lemma afterStream_results:
  "\<exists>a r. length a = length (getNodeMessages s)
         \<and> getNodeMessages (fst (snd (afterStream env agent cfg tcs s)))
             = a @ toolResultMessages env tcs @ r"
proof (cases "tcs = []")
  case True
  then have "getNodeMessages (fst (snd (afterStream env agent cfg tcs s)))
         = getNodeMessages s @ toolResultMessages env tcs @ []"
    by (simp add: afterStream_def toolResultMessages_def)
  then show ?thesis by blast
next
  case False
  let ?s1 = "clearExecutingTool (runTools env 0 tcs s)"
  let ?a = "getNodeMessages (clearExecutingTool s)"
  have s1: "getNodeMessages ?s1 = ?a @ toolResultMessages env tcs" by (rule clear_after_tools)
  show ?thesis
  proof (cases "Chat \<in> set (capabilities agent)")
    case False
    with \<open>tcs \<noteq> []\<close> have "afterStream env agent cfg tcs s = (Done, ?s1, [])"
      by (simp add: afterStream_def Let_def)
    with s1 have "length ?a = length (getNodeMessages s)"
      "getNodeMessages (fst (snd (afterStream env agent cfg tcs s)))
         = ?a @ toolResultMessages env tcs @ []"
      by (simp_all add: clear_length)
    then show ?thesis by blast
  next
    case True
    let ?s2 = "?s1\<lparr>loadingMessage := t_loc env ''analyzing_results''\<rparr>"
    let ?fid = "MsgId (now env AtFollowUp) ''-followup''"
    obtain chunks completion where g:
      "generateContentStream env (followUpArgs env agent cfg ?s2) = (chunks, completion)"
      by (metis prod.exhaust)
    obtain s3 cur3 b3 where l: "followUpLoop ?fid chunks (?s2, []) = ((s3, cur3), b3)"
      by (metis prod.exhaust)
    have "nodeMessages ?s2 = ?a @ toolResultMessages env tcs @ []"
      using s1 by (simp add: getNodeMessages_def)
    from followUpLoop_segment[OF toolResult_id this l] obtain a' r' where
      "length a' = length ?a" "nodeMessages s3 = a' @ toolResultMessages env tcs @ r'" by blast
    moreover from True \<open>tcs \<noteq> []\<close> g l have "fst (snd (afterStream env agent cfg tcs s)) = s3"
      by (simp add: afterStream_def Let_def)
    ultimately have "length a' = length (getNodeMessages s)"
      "getNodeMessages (fst (snd (afterStream env agent cfg tcs s)))
         = a' @ toolResultMessages env tcs @ r'"
      by (simp_all add: clear_length getNodeMessages_def[of s3])
    then show ?thesis by blast
  qed
qed

lemma handler_results:
  assumes "turnStarts env agent s um cfg"
      and "primaryPhase env agent cfg (getNodeMessages s) um (submitted um s) = Inr (s2, tcs, calls)"
  shows "\<exists>a r. length a = length (getNodeMessages s2)
         \<and> getNodeMessages (storeOf (handleSendMessage env (Some agent) s))
             = a @ toolResultMessages env tcs @ r"
proof -
  from afterStream_results[of s2 env agent cfg tcs] obtain a r where
    ar: "length a = length (getNodeMessages s2)"
        "getNodeMessages (fst (snd (afterStream env agent cfg tcs s2))) = a @ toolResultMessages env tcs @ r"
    by blast
  obtain c3 s3 calls3 where as: "afterStream env agent cfg tcs s2 = (c3, s3, calls3)"
    by (metis prod.exhaust)
  then have t: "tryBody env agent cfg (getNodeMessages s) um (submitted um s) = (c3, s3, calls @ calls3)"
    by (simp add: tryBody_def assms(2))
  from ar(2) as have m: "nodeMessages s3 = a @ toolResultMessages env tcs @ r"
    by (simp add: getNodeMessages_def)
  show ?thesis
  proof (cases c3)
    case Done
    with t m have "getNodeMessages (storeOf (handleSendMessage env (Some agent) s))
                    = a @ toolResultMessages env tcs @ r"
      by (simp add: handle_turn[OF assms(1)] catchFinally_def storeOf_def setNodeExecuting_def
            getNodeMessages_def)
    with ar(1) show ?thesis by blast
  next
    case (Throws err)
    with t m have "getNodeMessages (storeOf (handleSendMessage env (Some agent) s))
                    = a @ toolResultMessages env tcs @ (r @ [caughtErrorMessage env err])"
      by (simp add: handle_turn[OF assms(1)] catchFinally_def storeOf_def setNodeExecuting_def
            addNodeMessage_def getNodeMessages_def)
    with ar(1) show ?thesis by blast
  qed
qed

lemma toolResultMessages_nth:
  "i < length tcs \<Longrightarrow> toolResultMessages env tcs ! i = toolResultMessage env i (tcs ! i)"
  by (simp add: toolResultMessages_def nth_enumerate_eq)

text \<open>
  C6. In a turn whose primary stream ended with the recorded tool calls \<open>tcs\<close>, the
  session the handler leaves holds, right after the messages it held at the end of the
  primary stream, exactly one \<^verbatim>\<open>tool_result\<close> message per call, in call order, each
  carrying the id and name of its call; a message is error-flagged exactly when
  \<^verbatim>\<open>executeTool\<close> threw on its call, and a throwing call does not stop the calls after
  it. The follow-up stream call, when there is one, comes after and is built from the
  store that ends with all of them.
\<close>

theorem tool_batch_isolation:
  assumes "turnStarts env agent s userMessage agentConfig"
      and "primaryPhase env agent agentConfig (getNodeMessages s) userMessage (submitted userMessage s)
             = Inr (s2, tcs, calls)"
  shows "take (length tcs)
           (drop (length (getNodeMessages s2))
              (getNodeMessages (storeOf (handleSendMessage env (Some agent) s))))
           = toolResultMessages env tcs
       \<and> length (toolResultMessages env tcs) = length tcs
       \<and> (\<forall>i < length tcs.
             sender (toolResultMessages env tcs ! i) = SToolResult
           \<and> toolCallId (toolResultMessages env tcs ! i) = Some (tc_id (tcs ! i))
           \<and> toolName (toolResultMessages env tcs ! i) = Some (tc_name (tcs ! i))
           \<and> isError (toolResultMessages env tcs ! i) = isl (executeTool env (tcs ! i)))
       \<and> (tcs \<noteq> [] \<and> Chat \<in> set (capabilities agent) \<longrightarrow>
            callsOf (handleSendMessage env (Some agent) s)
              = calls @ [Stream (followUpArgs env agent agentConfig
                                  ((clearExecutingTool (runTools env 0 tcs s2))
                                     \<lparr>loadingMessage := t_loc env ''analyzing_results''\<rparr>))]
            \<and> getNodeMessages ((clearExecutingTool (runTools env 0 tcs s2))
                                  \<lparr>loadingMessage := t_loc env ''analyzing_results''\<rparr>)
                = getNodeMessages (clearExecutingTool s2) @ toolResultMessages env tcs
            \<and> length (getNodeMessages (clearExecutingTool s2)) = length (getNodeMessages s2))"
proof -
  have len: "length (toolResultMessages env tcs) = length tcs"
    by (simp add: toolResultMessages_def)
  from handler_results[OF assms] obtain a r where
    ar: "length a = length (getNodeMessages s2)"
        "getNodeMessages (storeOf (handleSendMessage env (Some agent) s))
           = a @ toolResultMessages env tcs @ r" by blast
  have 1: "take (length tcs)
           (drop (length (getNodeMessages s2))
              (getNodeMessages (storeOf (handleSendMessage env (Some agent) s))))
           = toolResultMessages env tcs"
    using ar len by simp
  have 3: "\<forall>i < length tcs.
             sender (toolResultMessages env tcs ! i) = SToolResult
           \<and> toolCallId (toolResultMessages env tcs ! i) = Some (tc_id (tcs ! i))
           \<and> toolName (toolResultMessages env tcs ! i) = Some (tc_name (tcs ! i))
           \<and> isError (toolResultMessages env tcs ! i) = isl (executeTool env (tcs ! i))"
    by (simp add: toolResultMessages_nth toolResultMessage_fields)
  have 4: "callsOf (handleSendMessage env (Some agent) s)
              = calls @ [Stream (followUpArgs env agent agentConfig
                                  ((clearExecutingTool (runTools env 0 tcs s2))
                                     \<lparr>loadingMessage := t_loc env ''analyzing_results''\<rparr>))]"
    if "tcs \<noteq> []" "Chat \<in> set (capabilities agent)"
  proof -
    from that have "snd (snd (afterStream env agent agentConfig tcs s2))
      = [Stream (followUpArgs env agent agentConfig
                  ((clearExecutingTool (runTools env 0 tcs s2))
                     \<lparr>loadingMessage := t_loc env ''analyzing_results''\<rparr>))]"
      by (auto simp: afterStream_def Let_def split: prod.splits)
    then show ?thesis
      by (auto simp: handle_turn[OF assms(1)] tryBody_def assms(2) catchFinally_def callsOf_def
               split: prod.splits Completion.splits)
  qed
  have 5: "getNodeMessages ((clearExecutingTool (runTools env 0 tcs s2))
                                  \<lparr>loadingMessage := t_loc env ''analyzing_results''\<rparr>)
                = getNodeMessages (clearExecutingTool s2) @ toolResultMessages env tcs"
    using clear_after_tools[of env tcs s2] by (simp add: getNodeMessages_def)
  from 1 len 3 4 5 clear_length[of s2] show ?thesis by blast
qed

lemma starts_batch: "turnStarts batchEnv demoAgent idleStore hello demoConfig"
  by (simp add: eval_defs batchEnv_def hello_def)

lemma primary_batch:
  "primaryPhase batchEnv demoAgent demoConfig (getNodeMessages idleStore) hello
        (submitted hello idleStore)
     = Inr (submitted hello idleStore, threeCalls,
            [Stream (primaryArgs demoAgent demoConfig [] hello)])"
  by (simp add: eval_defs batchEnv_def hello_def threeCalls_def)

theorem tool_batch_isolation_witness:
  "turnStarts batchEnv demoAgent idleStore hello demoConfig
   \<and> primaryPhase batchEnv demoAgent demoConfig (getNodeMessages idleStore) hello
        (submitted hello idleStore)
       = Inr (submitted hello idleStore, threeCalls,
              [Stream (primaryArgs demoAgent demoConfig [] hello)])
   \<and> take 3 (drop 1 (getNodeMessages (storeOf (handleSendMessage batchEnv (Some demoAgent) idleStore))))
       = toolResultMessages batchEnv threeCalls
   \<and> length (toolResultMessages batchEnv threeCalls) = 3
   \<and> \<not> isError (toolResultMessages batchEnv threeCalls ! 0)
   \<and> isError (toolResultMessages batchEnv threeCalls ! 1)
   \<and> \<not> isError (toolResultMessages batchEnv threeCalls ! 2)
   \<and> toolCallId (toolResultMessages batchEnv threeCalls ! 1) = Some ''c2''
   \<and> sender (toolResultMessages batchEnv threeCalls ! 2) = SToolResult
   \<and> threeCalls \<noteq> [] \<and> Chat \<in> set (capabilities demoAgent)
   \<and> callsOf (handleSendMessage batchEnv (Some demoAgent) idleStore)
       = [Stream (primaryArgs demoAgent demoConfig [] hello)]
         @ [Stream (followUpArgs batchEnv demoAgent demoConfig
                     ((clearExecutingTool (runTools batchEnv 0 threeCalls (submitted hello idleStore)))
                        \<lparr>loadingMessage := t_loc batchEnv ''analyzing_results''\<rparr>))]"
proof -
  note T = tool_batch_isolation[OF starts_batch primary_batch]
  have n: "length (getNodeMessages (submitted hello idleStore)) = 1" "length threeCalls = 3"
    by (simp_all add: idleStore_def getNodeMessages_def submitted_def addNodeMessage_def
          setNodeExecuting_def threeCalls_def)
  have e: "\<not> isl (executeTool batchEnv (threeCalls ! 0))" "isl (executeTool batchEnv (threeCalls ! 1))"
          "\<not> isl (executeTool batchEnv (threeCalls ! 2))" "tc_id (threeCalls ! 1) = ''c2''"
    by (simp_all add: threeCalls_def batchEnv_def demoEnv_def demoCall_def)
  have c: "threeCalls \<noteq> []" "Chat \<in> set (capabilities demoAgent)"
    by (simp_all add: threeCalls_def demoAgent_def)
  from T n have st: "take 3 (drop 1 (getNodeMessages (storeOf (handleSendMessage batchEnv (Some demoAgent) idleStore))))
       = toolResultMessages batchEnv threeCalls" by simp
  from T n have len: "length (toolResultMessages batchEnv threeCalls) = 3" by simp
  from T n have each: "\<forall>i<3.
       sender (toolResultMessages batchEnv threeCalls ! i) = SToolResult
     \<and> toolCallId (toolResultMessages batchEnv threeCalls ! i) = Some (tc_id (threeCalls ! i))
     \<and> toolName (toolResultMessages batchEnv threeCalls ! i) = Some (tc_name (threeCalls ! i))
     \<and> isError (toolResultMessages batchEnv threeCalls ! i) = isl (executeTool batchEnv (threeCalls ! i))"
    by simp
  have i3: "(0::nat) < 3" "(1::nat) < 3" "(2::nat) < 3" by simp_all
  from each[THEN spec, THEN mp, OF i3(1)] each[THEN spec, THEN mp, OF i3(2)]
       each[THEN spec, THEN mp, OF i3(3)] e
  have r: "\<not> isError (toolResultMessages batchEnv threeCalls ! 0)"
    "isError (toolResultMessages batchEnv threeCalls ! 1)"
    "\<not> isError (toolResultMessages batchEnv threeCalls ! 2)"
    "toolCallId (toolResultMessages batchEnv threeCalls ! 1) = Some ''c2''"
    "sender (toolResultMessages batchEnv threeCalls ! 2) = SToolResult"
    by simp_all
  from T c have fu: "callsOf (handleSendMessage batchEnv (Some demoAgent) idleStore)
       = [Stream (primaryArgs demoAgent demoConfig [] hello)]
         @ [Stream (followUpArgs batchEnv demoAgent demoConfig
                     ((clearExecutingTool (runTools batchEnv 0 threeCalls (submitted hello idleStore)))
                        \<lparr>loadingMessage := t_loc batchEnv ''analyzing_results''\<rparr>))]"
    by blast
  from starts_batch primary_batch st len r c fu show ?thesis by blast
qed

end
